theory Spec2Isabelle
  imports Main "HOL-Library.Sublist"
begin

section \<open>Strings and lines\<close>

text \<open>
  Texts are \<^typ>\<open>string\<close>s: lists of 8-bit characters, read as the UTF-8 encoding of the
  JavaScript string. A search for an ASCII text, a split at an ASCII character and a
  comparison of two texts give the same on the encoding as on the string.
\<close>

abbreviation LF :: char where "LF \<equiv> CHR 0x0A"
abbreviation CR :: char where "CR \<equiv> CHR 0x0D"

text \<open>
  The white space of \<^verbatim>\<open>String.prototype.trim\<close> and of the regular expression class
  \<^verbatim>\<open>\s\<close>, each character in its encoding: TAB, LF, VT, FF, CR, SPACE, U+00A0, U+1680,
  U+2000 to U+200A, U+2028, U+2029, U+202F, U+205F, U+3000 and U+FEFF.
\<close>

definition whiteSpace :: "string list" where
  "whiteSpace =
     map (\<lambda>c. [c]) [CHR 0x09, LF, CHR 0x0B, CHR 0x0C, CR, CHR 0x20] @
     [[CHR 0xC2, CHR 0xA0], [CHR 0xE1, CHR 0x9A, CHR 0x80]] @
     map (\<lambda>c. [CHR 0xE2, CHR 0x80, c])
       [CHR 0x80, CHR 0x81, CHR 0x82, CHR 0x83, CHR 0x84, CHR 0x85, CHR 0x86, CHR 0x87,
        CHR 0x88, CHR 0x89, CHR 0x8A, CHR 0xA8, CHR 0xA9, CHR 0xAF] @
     [[CHR 0xE2, CHR 0x81, CHR 0x9F], [CHR 0xE3, CHR 0x80, CHR 0x80],
      [CHR 0xEF, CHR 0xBB, CHR 0xBF]]"

text \<open>
  The number of characters that the white space at the start, or at the end, of a text
  takes in the encoding; \<open>0\<close> when the text does not start, or end, with white space.
\<close>

definition spaceAtStart :: "string \<Rightarrow> nat" where
  "spaceAtStart s =
     (case find (\<lambda>w. prefix w s) whiteSpace of None \<Rightarrow> 0 | Some w \<Rightarrow> length w)"

definition spaceAtEnd :: "string \<Rightarrow> nat" where
  "spaceAtEnd s =
     (case find (\<lambda>w. suffix w s) whiteSpace of None \<Rightarrow> 0 | Some w \<Rightarrow> length w)"

lemma whiteSpace_nonempty: "w \<in> set whiteSpace \<Longrightarrow> w \<noteq> []"
  by (auto simp: whiteSpace_def)

lemma spaceAtStart_shorter: "0 < spaceAtStart s \<Longrightarrow> length s - spaceAtStart s < length s"
  by (cases s)
     (auto simp: spaceAtStart_def find_Some_iff whiteSpace_nonempty split: option.splits)

lemma spaceAtEnd_shorter: "0 < spaceAtEnd s \<Longrightarrow> length s - spaceAtEnd s < length s"
  by (cases s)
     (auto simp: spaceAtEnd_def find_Some_iff whiteSpace_nonempty split: option.splits)

text \<open>\<^verbatim>\<open>s.replace(/^\s+/, "")\<close> and \<^verbatim>\<open>s.replace(/\s+$/, "")\<close>\<close>

function trimStart :: "string \<Rightarrow> string" where
  "trimStart s = (if spaceAtStart s = 0 then s else trimStart (drop (spaceAtStart s) s))"
  by pat_completeness auto
termination
  by (relation "measure length") (auto intro: spaceAtStart_shorter)

function trimEnd :: "string \<Rightarrow> string" where
  "trimEnd s = (if spaceAtEnd s = 0 then s else trimEnd (take (length s - spaceAtEnd s) s))"
  by pat_completeness auto
termination
  by (relation "measure length") (auto intro: spaceAtEnd_shorter)

declare trimStart.simps [simp del] trimEnd.simps [simp del]

text \<open>\<^verbatim>\<open>s.trim()\<close>\<close>

definition trim :: "string \<Rightarrow> string" where
  "trim s = trimEnd (trimStart s)"

definition isDigit :: "char \<Rightarrow> bool" where
  "isDigit c = (c \<in> set ''0123456789'')"

text \<open>\<^verbatim>\<open>s.startsWith(p)\<close> is \<^term>\<open>prefix p s\<close>; \<^verbatim>\<open>s.includes(p)\<close>:\<close>

fun includesStr :: "string \<Rightarrow> string \<Rightarrow> bool" where
  "includesStr [] p = (p = [])"
| "includesStr (c # cs) p = (prefix p (c # cs) \<or> includesStr cs p)"

text \<open>\<^verbatim>\<open>s.replace(/\r\n/g, "\n")\<close>\<close>

fun replaceCRLF :: "string \<Rightarrow> string" where
  "replaceCRLF [] = []"
| "replaceCRLF [c] = [c]"
| "replaceCRLF (c # d # cs) =
     (if c = CR \<and> d = LF then LF # replaceCRLF cs else c # replaceCRLF (d # cs))"

text \<open>\<^verbatim>\<open>s.split(c)\<close> for a one-character separator: never the empty list.\<close>

fun splitChar :: "char \<Rightarrow> string \<Rightarrow> string list" where
  "splitChar c [] = [[]]"
| "splitChar c (x # xs) =
     (if x = c then [] # splitChar c xs
      else (case splitChar c xs of [] \<Rightarrow> [[x]] | l # ls \<Rightarrow> (x # l) # ls))"

text \<open>\<^verbatim>\<open>parts.join(sep)\<close>\<close>

fun joinWith :: "string \<Rightarrow> string list \<Rightarrow> string" where
  "joinWith sep [] = []"
| "joinWith sep [l] = l"
| "joinWith sep (l # l' # ls) = l @ sep @ joinWith sep (l' # ls)"

definition splitLines :: "string \<Rightarrow> string list" where
  "splitLines s = splitChar LF (replaceCRLF s)"

section \<open>Numbers\<close>

text \<open>
  The numbers of the patch code are JavaScript numbers, IEEE 754 doubles. The ones that
  occur are the non-negative integers a double can hold, and \<^verbatim>\<open>Infinity\<close>. Indices into
  an array of lines, and lengths, are naturals: an array has fewer than \<open>2^32\<close> elements,
  so they are exact.
\<close>

datatype number = Fin nat | Infinity

instantiation number :: linorder
begin

definition less_eq_number :: "number \<Rightarrow> number \<Rightarrow> bool" where
  "less_eq_number x y =
     (case y of Infinity \<Rightarrow> True | Fin n \<Rightarrow> (case x of Infinity \<Rightarrow> False | Fin m \<Rightarrow> m \<le> n))"

definition less_number :: "number \<Rightarrow> number \<Rightarrow> bool" where
  "less_number x y =
     (case x of Infinity \<Rightarrow> False | Fin m \<Rightarrow> (case y of Infinity \<Rightarrow> True | Fin n \<Rightarrow> m < n))"

instance
  by standard (auto simp: less_eq_number_def less_number_def split: number.splits)

end

text \<open>The number of binary digits of a natural number.\<close>

fun bitLength :: "nat \<Rightarrow> nat" where
  "bitLength n = (if n = 0 then 0 else Suc (bitLength (n div 2)))"

declare bitLength.simps [simp del]

text \<open>
  The double nearest to the natural number \<open>n\<close>, as every arithmetic operation and
  \<^verbatim>\<open>Number(digits)\<close> round their exact result: \<open>n\<close> itself when it has at most 53 binary
  digits; else \<open>n\<close> rounded to 53 digits, a tie to the even one, and \<^verbatim>\<open>Infinity\<close> from
  \<open>2^1024\<close> on.
\<close>

definition toDouble :: "nat \<Rightarrow> number" where
  "toDouble n =
     (if bitLength n \<le> 53 then Fin n
      else
        (let e = bitLength n - 53;
             q = n div 2 ^ e;
             r = n mod 2 ^ e;
             m = (if 2 ^ (e - 1) < r \<or> (r = 2 ^ (e - 1) \<and> odd q) then q + 1 else q)
         in if 2 ^ 1024 \<le> m * 2 ^ e then Infinity else Fin (m * 2 ^ e)))"

text \<open>\<^verbatim>\<open>Math.max(0, x - 1)\<close> and \<^verbatim>\<open>x + 1\<close> for a number \<open>x\<close> that is not negative.\<close>

definition minusOne :: "number \<Rightarrow> number" where
  "minusOne x = (case x of Infinity \<Rightarrow> Infinity | Fin n \<Rightarrow> toDouble (n - 1))"

definition plusOne :: "number \<Rightarrow> number" where
  "plusOne x = (case x of Infinity \<Rightarrow> Infinity | Fin n \<Rightarrow> toDouble (n + 1))"

text \<open>\<^verbatim>\<open>Math.abs(i - x)\<close> for an index \<open>i\<close>.\<close>

definition absDiff :: "nat \<Rightarrow> nat \<Rightarrow> nat" where
  "absDiff i p = (if p \<le> i then i - p else p - i)"

definition distance :: "nat \<Rightarrow> number \<Rightarrow> number" where
  "distance i x = (case x of Infinity \<Rightarrow> Infinity | Fin p \<Rightarrow> toDouble (absDiff i p))"

text \<open>\<^verbatim>\<open>Math.min(x, n)\<close> for a length \<open>n\<close>.\<close>

definition minWith :: "number \<Rightarrow> nat \<Rightarrow> nat" where
  "minWith x n = (case x of Infinity \<Rightarrow> n | Fin p \<Rightarrow> min p n)"

section \<open>Unified diff parser\<close>

datatype lineKind = Ctx | Add | Del

record UnifiedDiffHunkLine =
  hl_kind :: lineKind
  hl_text :: string

record UnifiedDiffHunk =
  oldStart :: number
  oldCount :: number
  newStart :: number
  newCount :: number
  hunkLines :: "UnifiedDiffHunkLine list"

text \<open>\<^verbatim>\<open>Number(ds)\<close> on a string of decimal digits: the double nearest to its value.\<close>

definition digitVal :: "char \<Rightarrow> nat" where
  "digitVal c = of_char c - 48"

definition decimalValue :: "string \<Rightarrow> nat" where
  "decimalValue ds = foldl (\<lambda>n c. 10 * n + digitVal c) 0 ds"

definition numberOfDigits :: "string \<Rightarrow> number" where
  "numberOfDigits ds = toDouble (decimalValue ds)"

text \<open>
  \<^verbatim>\<open>parseRange\<close>: the regular expression \<^verbatim>\<open>^(\d+)(?:,(\d+))?$\<close>; no match gives
  \<open>(0, 0)\<close>, a missing count is \<open>1\<close>.
\<close>

definition parseRange :: "string \<Rightarrow> number \<times> number" where
  "parseRange s =
     (let ds = takeWhile isDigit s; r = dropWhile isDigit s in
      if ds = [] then (Fin 0, Fin 0)
      else (case r of
              [] \<Rightarrow> (numberOfDigits ds, Fin 1)
            | c # r' \<Rightarrow>
                if c = CHR '','' \<and> r' \<noteq> [] \<and> list_all isDigit r'
                then (numberOfDigits ds, numberOfDigits r') else (Fin 0, Fin 0)))"

text \<open>\<^verbatim>\<open>\s+\<close> at the start of the string: the rest after the white space.\<close>

definition matchSpaces :: "string \<Rightarrow> string option" where
  "matchSpaces s = (if spaceAtStart s = 0 then None else Some (trimStart s))"


text \<open>\<^verbatim>\<open>(\d+(?:,\d+)?)\<close> at the start of the string: the capture and the rest.\<close>

definition matchRange :: "string \<Rightarrow> (string \<times> string) option" where
  "matchRange s =
     (let ds = takeWhile isDigit s; r = dropWhile isDigit s in
      if ds = [] then None
      else (case r of
              [] \<Rightarrow> Some (ds, r)
            | c # r' \<Rightarrow>
                if c = CHR '','' \<and> takeWhile isDigit r' \<noteq> []
                then Some (ds @ [c] @ takeWhile isDigit r', dropWhile isDigit r')
                else Some (ds, r)))"

text \<open>
  The hunk header \<^verbatim>\<open>/^@@\s+-(\d+(?:,\d+)?)\s+\+(\d+(?:,\d+)?)\s+@@/\<close>: the two captures.
  Every quantifier of the expression is followed by a character outside its class, so the
  greedy match is the only one.
\<close>

definition matchHunkHeader :: "string \<Rightarrow> (string \<times> string) option" where
  "matchHunkHeader l =
     (if \<not> prefix ''@@'' l then None
      else (case matchSpaces (drop 2 l) of None \<Rightarrow> None | Some r1 \<Rightarrow>
        (case r1 of [] \<Rightarrow> None | c1 # r2 \<Rightarrow>
          (if c1 \<noteq> CHR ''-'' then None
           else (case matchRange r2 of None \<Rightarrow> None | Some (m1, r3) \<Rightarrow>
             (case matchSpaces r3 of None \<Rightarrow> None | Some r4 \<Rightarrow>
               (case r4 of [] \<Rightarrow> None | c2 # r5 \<Rightarrow>
                 (if c2 \<noteq> CHR ''+'' then None
                  else (case matchRange r5 of None \<Rightarrow> None | Some (m2, r6) \<Rightarrow>
                    (case matchSpaces r6 of None \<Rightarrow> None | Some r7 \<Rightarrow>
                      (if prefix ''@@'' r7 then Some (m1, m2) else None)))))))))))"

text \<open>One line of a hunk body: a skipped line or a marker gives no hunk line.\<close>

definition noNewlineMarker :: string where
  "noNewlineMarker = CHR 0x5C # '' No newline at end of file''"

definition parseHunkLine :: "string \<Rightarrow> UnifiedDiffHunkLine list" where
  "parseHunkLine l =
     (if prefix ''--- '' l \<or> prefix ''+++ '' l \<or> prefix ''diff '' l then []
      else if prefix '' '' l then [\<lparr>hl_kind = Ctx, hl_text = tl l\<rparr>]
      else if prefix ''+'' l then [\<lparr>hl_kind = Add, hl_text = tl l\<rparr>]
      else if prefix ''-'' l then [\<lparr>hl_kind = Del, hl_text = tl l\<rparr>]
      else if l = noNewlineMarker then []
      else [\<lparr>hl_kind = Ctx, hl_text = l\<rparr>])"

text \<open>
  The outer loop of \<^verbatim>\<open>parseUnifiedDiff\<close> over the remaining lines. The inner loop takes
  the lines up to the next one that starts with \<^verbatim>\<open>"@@ "\<close>; that line is then read again
  by the outer loop.
\<close>

function parseHunks :: "string list \<Rightarrow> UnifiedDiffHunk list" where
  "parseHunks [] = []"
| "parseHunks (line # rest) =
     (case matchHunkHeader line of
        None \<Rightarrow> parseHunks rest
      | Some (m1, m2) \<Rightarrow>
          \<lparr>oldStart = fst (parseRange m1), oldCount = snd (parseRange m1),
           newStart = fst (parseRange m2), newCount = snd (parseRange m2),
           hunkLines = concat (map parseHunkLine (takeWhile (\<lambda>l. \<not> prefix ''@@ '' l) rest))\<rparr>
          # parseHunks (dropWhile (\<lambda>l. \<not> prefix ''@@ '' l) rest))"
  by pat_completeness auto
termination
  by (relation "measure length") (auto simp: less_Suc_eq_le length_dropWhile_le)

definition parseUnifiedDiff :: "string \<Rightarrow> UnifiedDiffHunk list" where
  "parseUnifiedDiff patchText = parseHunks (splitLines patchText)"

section \<open>Patch applier\<close>

text \<open>
  The inner loop of \<^verbatim>\<open>findSequenceStart\<close> compares \<open>seq\<close> with the lines of \<open>hay\<close> from
  index \<open>i\<close>; a read past the end is \<^verbatim>\<open>undefined\<close> and differs from every line.
\<close>

definition matchesAt :: "string list \<Rightarrow> string list \<Rightarrow> nat \<Rightarrow> bool" where
  "matchesAt hay seq i = (take (length seq) (drop i hay) = seq)"

text \<open>
  The scan of \<^verbatim>\<open>findSequenceStart\<close> from index \<open>i\<close>, with the values of \<^verbatim>\<open>best\<close>
  (\<open>None\<close> for \<^verbatim>\<open>null\<close>) and \<^verbatim>\<open>bestDist\<close>.
\<close>

function findLoop ::
  "string list \<Rightarrow> string list \<Rightarrow> number \<Rightarrow> nat \<Rightarrow> nat option \<Rightarrow> number \<Rightarrow> nat option" where
  "findLoop hay seq preferredIndex i best bestDist =
     (if length hay < i + length seq then best
      else if \<not> matchesAt hay seq i then findLoop hay seq preferredIndex (Suc i) best bestDist
      else if distance i preferredIndex < bestDist
      then (if distance i preferredIndex = Fin 0 then Some i
            else findLoop hay seq preferredIndex (Suc i) (Some i) (distance i preferredIndex))
      else findLoop hay seq preferredIndex (Suc i) best bestDist)"
  by pat_completeness auto
termination
  by (relation "measure (\<lambda>(hay, seq, p, i, best, bestDist). Suc (length hay) - (i + length seq))")
     auto

declare findLoop.simps [simp del]

definition findSequenceStart ::
  "string list \<Rightarrow> string list \<Rightarrow> nat \<Rightarrow> number \<Rightarrow> nat option" where
  "findSequenceStart hay seq minIndex preferredIndex =
     (if seq = [] then Some (max minIndex (minWith preferredIndex (length hay)))
      else if length hay < minIndex + length seq then None
      else findLoop hay seq preferredIndex minIndex None Infinity)"

text \<open>
  The errors of the applier. The locate failure carries the number that its message
  prints as the line.
\<close>

datatype patchError =
    NoHunks
  | LocateFailed number
  | Overlap
  | ContextMismatch nat string string
  | DeleteMismatch nat string string

text \<open>\<^verbatim>\<open>a[ai] ?? "<eof>"\<close>\<close>

definition lineOrEof :: "string list \<Rightarrow> nat \<Rightarrow> string" where
  "lineOrEof a ai = (if ai < length a then a ! ai else ''<eof>'')"

text \<open>The walk over the lines of one hunk, from cursor \<open>ai\<close> with output \<open>out\<close>.\<close>

fun applyHunkLines ::
  "string list \<Rightarrow> nat \<Rightarrow> string list \<Rightarrow> UnifiedDiffHunkLine list \<Rightarrow> patchError + (nat \<times> string list)" where
  "applyHunkLines a ai out [] = Inr (ai, out)"
| "applyHunkLines a ai out (hl # hls) =
     (case hl_kind hl of
        Ctx \<Rightarrow>
          if \<not> (ai < length a \<and> a ! ai = hl_text hl)
          then Inl (ContextMismatch (ai + 1) (hl_text hl) (lineOrEof a ai))
          else applyHunkLines a (ai + 1) (out @ [a ! ai]) hls
      | Del \<Rightarrow>
          if \<not> (ai < length a \<and> a ! ai = hl_text hl)
          then Inl (DeleteMismatch (ai + 1) (hl_text hl) (lineOrEof a ai))
          else applyHunkLines a (ai + 1) out hls
      | Add \<Rightarrow> applyHunkLines a ai (out @ [hl_text hl]) hls)"

definition oldSeqOf :: "UnifiedDiffHunk \<Rightarrow> string list" where
  "oldSeqOf h = map hl_text (filter (\<lambda>x. hl_kind x = Ctx \<or> hl_kind x = Del) (hunkLines h))"

text \<open>\<^verbatim>\<open>a.slice(i, j)\<close>\<close>

definition slice :: "'a list \<Rightarrow> nat \<Rightarrow> nat \<Rightarrow> 'a list" where
  "slice a i j = take (j - i) (drop i a)"

text \<open>\<^verbatim>\<open>preferredIdx\<close>: \<^verbatim>\<open>Math.max(0, h.oldStart - 1)\<close>\<close>

definition preferredIdx :: "UnifiedDiffHunk \<Rightarrow> number" where
  "preferredIdx h = minusOne (oldStart h)"

text \<open>The loop over the hunks, and the lines left after the last one.\<close>

fun applyHunks ::
  "string list \<Rightarrow> nat \<Rightarrow> string list \<Rightarrow> UnifiedDiffHunk list \<Rightarrow> patchError + string list" where
  "applyHunks a ai out [] = Inr (out @ drop ai a)"
| "applyHunks a ai out (h # hs) =
     (case findSequenceStart a (oldSeqOf h) ai (preferredIdx h) of
        None \<Rightarrow> Inl (LocateFailed (plusOne (preferredIdx h)))
      | Some foundIdx \<Rightarrow>
          if foundIdx < ai then Inl Overlap
          else (case applyHunkLines a foundIdx (out @ slice a ai foundIdx) (hunkLines h) of
                  Inl e \<Rightarrow> Inl e
                | Inr (ai', out') \<Rightarrow> applyHunks a ai' out' hs))"

definition applyUnifiedDiffToText :: "string \<Rightarrow> string \<Rightarrow> patchError + string" where
  "applyUnifiedDiffToText beforeText patchText =
     (let hunks = parseUnifiedDiff patchText in
      if hunks = [] then Inl NoHunks
      else (case applyHunks (splitLines beforeText) 0 [] hunks of
              Inl e \<Rightarrow> Inl e
            | Inr out \<Rightarrow> Inr (joinWith [LF] out)))"

section \<open>Notions used by the statements about the applier\<close>

text \<open>
  A run: a start index \<open>j\<close> at or after \<open>minIndex\<close> from which \<open>seq\<close> lies in \<open>hay\<close>.
\<close>

definition isRun :: "string list \<Rightarrow> string list \<Rightarrow> nat \<Rightarrow> nat \<Rightarrow> bool" where
  "isRun hay seq minIndex j =
     (minIndex \<le> j \<and> j + length seq \<le> length hay \<and> matchesAt hay seq j)"

text \<open>The lines a hunk writes: its context and added lines.\<close>

definition newSeqOf :: "UnifiedDiffHunkLine list \<Rightarrow> string list" where
  "newSeqOf ls = map hl_text (filter (\<lambda>x. hl_kind x \<noteq> Del) ls)"

section \<open>Unified diff text of a list of hunks\<close>











section \<open>Edit operations\<close>

text \<open>
  \<^verbatim>\<open>AiEditOp\<close>: the operation name and four optional string fields; \<open>None\<close> is a
  field that is absent (\<^verbatim>\<open>undefined\<close>).
\<close>

record AiEditOp =
  e_op :: string
  e_path :: "string option"
  e_content :: "string option"
  e_from :: "string option"
  e_to :: "string option"

text \<open>
  \<^verbatim>\<open>s.toLowerCase()\<close> on the ASCII letters. Its result is only compared with the
  operation names, which are ASCII, and a text with another character does not
  lower-case to one of them (of the characters beyond ASCII only U+212A gives an ASCII
  letter alone, \<open>k\<close>, which is in no name).
\<close>

definition lowerChar :: "char \<Rightarrow> char" where
  "lowerChar c =
     (if 65 \<le> (of_char c :: nat) \<and> (of_char c :: nat) \<le> 90
      then char_of (of_char c + (32 :: nat)) else c)"

definition toLowerCase :: "string \<Rightarrow> string" where
  "toLowerCase s = map lowerChar s"

text \<open>\<^verbatim>\<open>x ?? ""\<close> and the truth value of an optional string.\<close>

definition orEmpty :: "string option \<Rightarrow> string" where
  "orEmpty x = (case x of None \<Rightarrow> [] | Some s \<Rightarrow> s)"

definition truthy :: "string option \<Rightarrow> bool" where
  "truthy x = (case x of None \<Rightarrow> False | Some s \<Rightarrow> s \<noteq> [])"

section \<open>Git-style multi-file splitter\<close>

definition normalizeGitPath :: "string \<Rightarrow> string" where
  "normalizeGitPath p =
     (let t = trim p in
      if t = ''/dev/null'' then t
      else if prefix ''a/'' t then drop 2 t
      else if prefix ''b/'' t then drop 2 t
      else t)"

text \<open>The first loop: the lines from each \<^verbatim>\<open>diff --git\<close> line to the next.\<close>

fun splitBlocks :: "string list \<Rightarrow> string list \<Rightarrow> string list list" where
  "splitBlocks cur [] = (if cur \<noteq> [] then [cur] else [])"
| "splitBlocks cur (l # ls) =
     (if prefix ''diff --git '' l
      then (if cur \<noteq> [] then cur # splitBlocks [l] ls else splitBlocks [l] ls)
      else if cur = [] then splitBlocks cur ls
      else splitBlocks (cur @ [l]) ls)"

text \<open>
  The scan of one block for \<^verbatim>\<open>renameFrom\<close>, \<^verbatim>\<open>renameTo\<close>, \<^verbatim>\<open>oldPath\<close> and
  \<^verbatim>\<open>newPath\<close>: each is set by every line with its prefix, so the last such line wins.
\<close>

definition scanStep ::
  "string option \<times> string option \<times> string option \<times> string option \<Rightarrow> string \<Rightarrow>
   string option \<times> string option \<times> string option \<times> string option" where
  "scanStep st l =
     (case st of (renameFrom, renameTo, oldPath, newPath) \<Rightarrow>
        (if prefix ''rename from '' l then Some (normalizeGitPath (drop 12 l)) else renameFrom,
         if prefix ''rename to '' l then Some (normalizeGitPath (drop 10 l)) else renameTo,
         if prefix ''--- '' l then Some (normalizeGitPath (drop 4 l)) else oldPath,
         if prefix ''+++ '' l then Some (normalizeGitPath (drop 4 l)) else newPath))"

definition scanBlock ::
  "string list \<Rightarrow> string option \<times> string option \<times> string option \<times> string option" where
  "scanBlock b = foldl scanStep (None, None, None, None) b"

definition renameOp :: "string \<Rightarrow> string \<Rightarrow> AiEditOp" where
  "renameOp f t =
     \<lparr>e_op = ''rename'', e_path = None, e_content = None, e_from = Some f, e_to = Some t\<rparr>"

definition patchOp :: "string \<Rightarrow> string \<Rightarrow> AiEditOp" where
  "patchOp p c =
     \<lparr>e_op = ''patch'', e_path = Some p, e_content = Some c, e_from = None, e_to = None\<rparr>"

definition deleteOp :: "string \<Rightarrow> AiEditOp" where
  "deleteOp p =
     \<lparr>e_op = ''delete'', e_path = Some p, e_content = None, e_from = None, e_to = None\<rparr>"

definition writeOp :: "string \<Rightarrow> string \<Rightarrow> AiEditOp" where
  "writeOp p c =
     \<lparr>e_op = ''write'', e_path = Some p, e_content = Some c, e_from = None, e_to = None\<rparr>"

text \<open>The operations one block gives.\<close>

definition blockEdits :: "string list \<Rightarrow> AiEditOp list" where
  "blockEdits b =
     (let blockText = joinWith [LF] b in
      case scanBlock b of (renameFrom, renameTo, oldPath, newPath) \<Rightarrow>
        (let isDelete = (newPath = Some ''/dev/null'' \<or> list_ex (prefix ''deleted file mode'') b);
             isNew = (oldPath = Some ''/dev/null'' \<or> list_ex (prefix ''new file mode'') b)
         in
         if truthy renameFrom \<and> truthy renameTo
         then renameOp (orEmpty renameFrom) (orEmpty renameTo)
              # (if includesStr blockText ''@@ '' then [patchOp (orEmpty renameTo) blockText] else [])
         else
           (let path = (if truthy newPath \<and> newPath \<noteq> Some ''/dev/null'' then newPath
                        else if truthy oldPath \<and> oldPath \<noteq> Some ''/dev/null'' then oldPath
                        else None)
            in
            if \<not> truthy path then []
            else if isDelete then [deleteOp (orEmpty path)]
            else if includesStr blockText ''@@ '' then [patchOp (orEmpty path) blockText]
            else if isNew then [writeOp (orEmpty path) []]
            else [])))"

definition splitMultiFileGitDiffToEdits :: "string \<Rightarrow> AiEditOp list" where
  "splitMultiFileGitDiffToEdits diffText =
     concat (map blockEdits (splitBlocks [] (splitLines diffText)))"

section \<open>Edit normalizer\<close>

text \<open>\<^verbatim>\<open>p.replace(/\\/g, "/")\<close>\<close>

definition slashes :: "string \<Rightarrow> string" where
  "slashes p = map (\<lambda>c. if c = CHR 0x5C then CHR ''/'' else c) p"

text \<open>\<^verbatim>\<open>basename\<close>: the last non-empty segment, or the path itself when there is none.\<close>

definition basename :: "string \<Rightarrow> string" where
  "basename p =
     (let parts = filter (\<lambda>s. s \<noteq> []) (splitChar (CHR ''/'') (slashes p)) in
      if parts = [] then p else last parts)"

text \<open>\<^verbatim>\<open>while (p.startsWith("./")) p = p.slice(2)\<close>\<close>

fun stripDotSlash :: "string \<Rightarrow> string" where
  "stripDotSlash (c # d # r) =
     (if c = CHR ''.'' \<and> d = CHR ''/'' then stripDotSlash r else c # d # r)"
| "stripDotSlash s = s"

text \<open>\<^verbatim>\<open>s.replace(/\/$/, "")\<close>\<close>

definition dropTrailingSlash :: "string \<Rightarrow> string" where
  "dropTrailingSlash s = (if s \<noteq> [] \<and> last s = CHR ''/'' then butlast s else s)"

text \<open>\<^verbatim>\<open>/^[A-Za-z]:\//.test(p)\<close>\<close>

definition isLetter :: "char \<Rightarrow> bool" where
  "isLetter c =
     (65 \<le> (of_char c :: nat) \<and> (of_char c :: nat) \<le> 90 \<or>
      97 \<le> (of_char c :: nat) \<and> (of_char c :: nat) \<le> 122)"

definition hasDrive :: "string \<Rightarrow> bool" where
  "hasDrive p =
     (case p of c # d # e # r \<Rightarrow> isLetter c \<and> d = CHR '':'' \<and> e = CHR ''/'' | _ \<Rightarrow> False)"

definition dropLeadingSlash :: "string \<Rightarrow> string" where
  "dropLeadingSlash p = (if prefix ''/'' p then drop 1 p else p)"

definition sanitizePath :: "string \<Rightarrow> string option \<Rightarrow> string" where
  "sanitizePath raw workspaceRoot =
     (let p0 = trim raw in
      if p0 = [] then p0
      else
        (let p1 = stripDotSlash (slashes p0);
             root = dropTrailingSlash (slashes (orEmpty workspaceRoot));
             p2 = (if root \<noteq> [] \<and> (p1 = root \<or> prefix (root @ ''/'') p1)
                   then dropLeadingSlash (drop (length root) p1) else p1);
             looksAbsolute = (prefix ''/'' p2 \<or> hasDrive p2);
             p3 = (if looksAbsolute \<or> includesStr p2 ''..'' then basename p2 else p2)
         in dropLeadingSlash p3))"

text \<open>
  \<^verbatim>\<open>sanitizeOne\<close>: the operation with its paths sanitized, and whether that sets
  \<^verbatim>\<open>didSanitize\<close>.
\<close>

definition sanitizeOne :: "string option \<Rightarrow> AiEditOp \<Rightarrow> AiEditOp \<times> bool" where
  "sanitizeOne workspaceRoot e =
     (if toLowerCase (e_op e) = ''rename''
      then
        (let fromRaw = orEmpty (e_from e); toRaw = orEmpty (e_to e);
             from' = map_option (\<lambda>f. sanitizePath f workspaceRoot) (e_from e);
             to' = map_option (\<lambda>t. sanitizePath t workspaceRoot) (e_to e)
         in (e\<lparr>e_from := from', e_to := to'\<rparr>,
             (fromRaw \<noteq> [] \<and> truthy from' \<and> Some fromRaw \<noteq> from') \<or>
             (toRaw \<noteq> [] \<and> truthy to' \<and> Some toRaw \<noteq> to')))
      else
        (case e_path e of
           Some raw \<Rightarrow>
             (e\<lparr>e_path := Some (sanitizePath raw workspaceRoot)\<rparr>,
              raw \<noteq> sanitizePath raw workspaceRoot)
         | None \<Rightarrow> (e, False)))"

text \<open>The operations one input operation gives: itself, or the split of its diff.\<close>

definition expandEdit :: "AiEditOp \<Rightarrow> AiEditOp list" where
  "expandEdit e =
     (if toLowerCase (e_op e) = ''patch''
      then
        (let patchText = orEmpty (e_content e);
             hasGitDiff = (includesStr patchText ''diff --git '' \<and> includesStr patchText ''@@ '');
             missingPath = (\<not> truthy (e_path e) \<or> trim (orEmpty (e_path e)) = [])
         in
         if missingPath \<and> hasGitDiff then splitMultiFileGitDiffToEdits patchText
         else if hasGitDiff \<and> includesStr patchText (LF # ''diff --git '')
         then splitMultiFileGitDiffToEdits patchText
         else [e])
      else [e])"

definition normalizeAiEdits :: "AiEditOp list \<Rightarrow> string option \<Rightarrow> AiEditOp list \<times> bool" where
  "normalizeAiEdits edits workspaceRoot =
     (let rs = map (sanitizeOne workspaceRoot) (concat (map expandEdit edits))
      in (map fst rs, list_ex snd rs))"

section \<open>Notions used by the statements about paths and diff blocks\<close>

text \<open>A path with a \<open>..\<close> segment.\<close>

definition hasTraversal :: "string \<Rightarrow> bool" where
  "hasTraversal p = (''..'' \<in> set (splitChar (CHR ''/'') p))"



section \<open>Line differ\<close>

datatype opType = OpCtx | OpAdd | OpDel

text \<open>
  \<^verbatim>\<open>LineOp\<close>; the line is \<open>None\<close> where the code reads an array out of range
  (\<^verbatim>\<open>undefined\<close>).
\<close>

record LineOp =
  lo_type :: opType
  lo_line :: "string option"

text \<open>\<^verbatim>\<open>xs[i]\<close> for a number \<open>i\<close>, and \<^verbatim>\<open>v.get(k) ?? 0\<close> on a \<^verbatim>\<open>Map<number, number>\<close>.\<close>

definition nthI :: "'a list \<Rightarrow> int \<Rightarrow> 'a option" where
  "nthI xs i = (if 0 \<le> i \<and> i < int (length xs) then Some (xs ! nat i) else None)"

definition getOr0 :: "(int \<rightharpoonup> int) \<Rightarrow> int \<Rightarrow> int" where
  "getOr0 v k = (case v k of None \<Rightarrow> 0 | Some x \<Rightarrow> x)"

text \<open>\<^verbatim>\<open>while (x < n && y < m && a[x] === b[y]) { x++; y++; }\<close>\<close>

function snake :: "string list \<Rightarrow> string list \<Rightarrow> int \<Rightarrow> int \<Rightarrow> int \<times> int" where
  "snake a b x y =
     (if x < int (length a) \<and> y < int (length b) \<and> nthI a x = nthI b y
      then snake a b (x + 1) (y + 1) else (x, y))"
  by pat_completeness auto
termination
  by (relation "measure (\<lambda>(a, b, x, y). nat (int (length a) - x))") auto

declare snake.simps [simp del]

text \<open>
  The loop over the diagonals \<open>k = -d, -d + 2, ..., d\<close> of one edit distance \<open>d\<close>:
  \<open>v\<close> is the table of the distance before, \<open>v2\<close> the one being filled. The result says
  whether the end of both texts was reached, and gives \<open>v2\<close> as it then stands.
\<close>

function kLoop ::
  "string list \<Rightarrow> string list \<Rightarrow> int \<Rightarrow> (int \<rightharpoonup> int) \<Rightarrow> (int \<rightharpoonup> int) \<Rightarrow> int \<Rightarrow>
   bool \<times> (int \<rightharpoonup> int)" where
  "kLoop a b d v v2 k =
     (if k \<le> d then
        (let x0 = (if k = - d \<or> (k \<noteq> d \<and> getOr0 v (k - 1) < getOr0 v (k + 1))
                   then getOr0 v (k + 1) else getOr0 v (k - 1) + 1);
             xy = snake a b x0 (x0 - k);
             v2' = v2(k \<mapsto> fst xy)
         in if int (length a) \<le> fst xy \<and> int (length b) \<le> snd xy then (True, v2')
            else kLoop a b d v v2' (k + 2))
      else (False, v2))"
  by pat_completeness auto
termination
  by (relation "measure (\<lambda>(a, b, d, v, v2, k). nat (d - k + 1))") auto

declare kLoop.simps [simp del]

text \<open>\<^verbatim>\<open>while (x2 > prevX && y2 > prevY)\<close>: the kept lines of one step back.\<close>

function diagBack ::
  "string list \<Rightarrow> int \<Rightarrow> int \<Rightarrow> int \<Rightarrow> int \<Rightarrow> LineOp list \<Rightarrow> int \<times> int \<times> LineOp list" where
  "diagBack a x2 y2 prevX prevY ops =
     (if prevX < x2 \<and> prevY < y2
      then diagBack a (x2 - 1) (y2 - 1) prevX prevY
             (ops @ [\<lparr>lo_type = OpCtx, lo_line = nthI a (x2 - 1)\<rparr>])
      else (x2, y2, ops))"
  by pat_completeness auto
termination
  by (relation "measure (\<lambda>(a, x2, y2, prevX, prevY, ops). nat (x2 - prevX))") auto

declare diagBack.simps [simp del]

text \<open>
  The walk back through the trace, newest table first: the table at the head is
  \<^verbatim>\<open>trace[d2]\<close> for \<open>d2\<close> the number of tables behind it.
\<close>

fun backtrack ::
  "string list \<Rightarrow> string list \<Rightarrow> (int \<rightharpoonup> int) list \<Rightarrow> int \<Rightarrow> int \<Rightarrow> LineOp list \<Rightarrow> LineOp list" where
  "backtrack a b [] x2 y2 ops = ops"
| "backtrack a b (vv # older) x2 y2 ops =
     (let d2 = int (length older);
          k2 = x2 - y2;
          prevK = (if k2 = - d2 \<or> (k2 \<noteq> d2 \<and> getOr0 vv (k2 - 1) < getOr0 vv (k2 + 1))
                   then k2 + 1 else k2 - 1);
          prevX = getOr0 vv prevK;
          prevY = prevX - prevK
      in case diagBack a x2 y2 prevX prevY ops of (x3, y3, ops3) \<Rightarrow>
           if d2 = 0 then ops3
           else if x3 = prevX
           then backtrack a b older x3 (y3 - 1)
                  (ops3 @ [\<lparr>lo_type = OpAdd, lo_line = nthI b (y3 - 1)\<rparr>])
           else backtrack a b older (x3 - 1) y3
                  (ops3 @ [\<lparr>lo_type = OpDel, lo_line = nthI a (x3 - 1)\<rparr>]))"

text \<open>The loop over the edit distances \<open>d = 0, ..., n + m\<close>.\<close>

function dLoop ::
  "string list \<Rightarrow> string list \<Rightarrow> int \<Rightarrow> (int \<rightharpoonup> int) \<Rightarrow> (int \<rightharpoonup> int) list \<Rightarrow> LineOp list" where
  "dLoop a b d v trace =
     (if d \<le> int (length a) + int (length b) then
        (case kLoop a b d v Map.empty (- d) of
           (True, v2) \<Rightarrow>
             rev (backtrack a b (rev (trace @ [v2])) (int (length a)) (int (length b)) [])
         | (False, v2) \<Rightarrow> dLoop a b (d + 1) v2 (trace @ [v2]))
      else [])"
  by pat_completeness auto
termination
  by (relation "measure (\<lambda>(a, b, d, v, trace). nat (int (length a) + int (length b) - d + 1))")
    auto

declare dLoop.simps [simp del]

definition diffLines :: "string \<Rightarrow> string \<Rightarrow> LineOp list" where
  "diffLines beforeText afterText =
     dLoop (splitLines beforeText) (splitLines afterText) 0 [1 \<mapsto> 0] []"

section \<open>Change sets\<close>

datatype changeKind = KWrite | KDelete | KRename

record ChangeFile =
  cf_kind :: changeKind
  cf_path :: string
  cf_before :: "string option"
  cf_after :: "string option"

record Stats =
  st_files :: nat
  st_added :: nat
  st_removed :: nat

record ChangeSet =
  cs_id :: string
  cs_edits :: "AiEditOp list"
  cs_files :: "ChangeFile list"
  cs_stats :: Stats
  cs_applied :: bool

definition fileOps :: "ChangeFile \<Rightarrow> LineOp list" where
  "fileOps f = diffLines (orEmpty (cf_before f)) (orEmpty (cf_after f))"

definition computeStats :: "ChangeFile list \<Rightarrow> Stats" where
  "computeStats files =
     \<lparr>st_files = length files,
      st_added = length (filter (\<lambda>x. lo_type x = OpAdd) (concat (map fileOps files))),
      st_removed = length (filter (\<lambda>x. lo_type x = OpDel) (concat (map fileOps files)))\<rparr>"

section \<open>Workspace and editor state\<close>

record Tab =
  t_path :: string
  t_content :: string
  t_isDirty :: bool

text \<open>
  The files of the open folder, the folder itself (absent or empty when no folder is
  open) and the open editor tabs.
\<close>

record Workspace =
  ws_root :: "string option"
  ws_files :: "string \<rightharpoonup> string"
  ws_tabs :: "Tab list"

datatype ioError = IOError

text \<open>
  Modelled from the spec: the workspace I/O capability \<^verbatim>\<open>workspaceReadFile\<close>,
  \<^verbatim>\<open>workspaceWriteFile\<close>, \<^verbatim>\<open>workspaceDelete\<close> and \<^verbatim>\<open>workspaceRename\<close>, whose
  implementation is the native backend behind \<^verbatim>\<open>invoke\<close>. Each fails with an I/O
  error when no folder is open; reading, deleting and renaming a file that does not
  exist fail as well; writing creates or replaces the file; renaming moves the content
  to the new path, replacing a file that is there. A file is known by the text of its
  path.
\<close>

definition workspaceReadFile :: "Workspace \<Rightarrow> string \<Rightarrow> ioError + string" where
  "workspaceReadFile w p =
     (if \<not> truthy (ws_root w) then Inl IOError
      else case ws_files w p of None \<Rightarrow> Inl IOError | Some c \<Rightarrow> Inr c)"

definition workspaceWriteFile :: "Workspace \<Rightarrow> string \<Rightarrow> string \<Rightarrow> ioError + Workspace" where
  "workspaceWriteFile w p c =
     (if \<not> truthy (ws_root w) then Inl IOError
      else Inr (w\<lparr>ws_files := (ws_files w)(p \<mapsto> c)\<rparr>))"

definition workspaceDelete :: "Workspace \<Rightarrow> string \<Rightarrow> ioError + Workspace" where
  "workspaceDelete w p =
     (if \<not> truthy (ws_root w) \<or> ws_files w p = None then Inl IOError
      else Inr (w\<lparr>ws_files := (ws_files w)(p := None)\<rparr>))"

definition workspaceRename :: "Workspace \<Rightarrow> string \<Rightarrow> string \<Rightarrow> ioError + Workspace" where
  "workspaceRename w f t =
     (if \<not> truthy (ws_root w) then Inl IOError
      else case ws_files w f of
             None \<Rightarrow> Inl IOError
           | Some c \<Rightarrow> Inr (w\<lparr>ws_files := ((ws_files w)(f := None))(t \<mapsto> c)\<rparr>))"

section \<open>Applying edit operations\<close>

datatype applyError =
    NoWorkspaceOpen
  | MissingPath string
  | PatchFailed string patchError
  | MissingFromTo
  | MissingCommand
  | Unsupported string
  | IOFailed

text \<open>\<^verbatim>\<open>e.path?.trim()\<close>: the trimmed field, empty when the field is absent.\<close>

definition trimmed :: "string option \<Rightarrow> string" where
  "trimmed x = (case x of None \<Rightarrow> [] | Some s \<Rightarrow> trim s)"

text \<open>The \<^verbatim>\<open>setTabs\<close> updates of the three file operations.\<close>

definition tabsWritten :: "string \<Rightarrow> string \<Rightarrow> Tab list \<Rightarrow> Tab list" where
  "tabsWritten p c ts =
     map (\<lambda>t. if t_path t = p then t\<lparr>t_content := c, t_isDirty := False\<rparr> else t) ts"

definition tabsDeleted :: "string \<Rightarrow> Tab list \<Rightarrow> Tab list" where
  "tabsDeleted p ts = filter (\<lambda>t. t_path t \<noteq> p) ts"

definition tabsRenamed :: "string \<Rightarrow> string \<Rightarrow> Tab list \<Rightarrow> Tab list" where
  "tabsRenamed f t ts = map (\<lambda>x. if t_path x = f then x\<lparr>t_path := t\<rparr> else x) ts"

text \<open>
  One operation of the loop of \<^verbatim>\<open>applyAiEditsNow\<close>: the error thrown, or the state
  after it. Commands of \<^verbatim>\<open>run\<close> operations are queued for the command runner and
  leave the workspace as it is.
\<close>

definition applyOne :: "Workspace \<Rightarrow> AiEditOp \<Rightarrow> applyError + Workspace" where
  "applyOne w e =
     (let opn = toLowerCase (e_op e) in
      if opn = ''write'' then
        (let p = trimmed (e_path e) in
         if p = [] then Inl (MissingPath ''write'')
         else case workspaceWriteFile w p (orEmpty (e_content e)) of
                Inl err \<Rightarrow> Inl IOFailed
              | Inr w' \<Rightarrow> Inr (w'\<lparr>ws_tabs := tabsWritten p (orEmpty (e_content e)) (ws_tabs w')\<rparr>))
      else if opn = ''patch'' then
        (let p = trimmed (e_path e) in
         if p = [] then Inl (MissingPath ''patch'')
         else
           (let beforeResolved = (case workspaceReadFile w p of Inl err \<Rightarrow> [] | Inr c \<Rightarrow> c) in
            case applyUnifiedDiffToText beforeResolved (orEmpty (e_content e)) of
              Inl err \<Rightarrow> Inl (PatchFailed p err)
            | Inr txt \<Rightarrow>
                (case workspaceWriteFile w p txt of
                   Inl err \<Rightarrow> Inl IOFailed
                 | Inr w' \<Rightarrow> Inr (w'\<lparr>ws_tabs := tabsWritten p txt (ws_tabs w')\<rparr>))))
      else if opn = ''delete'' then
        (let p = trimmed (e_path e) in
         if p = [] then Inl (MissingPath ''delete'')
         else case workspaceDelete w p of
                Inl err \<Rightarrow> Inl IOFailed
              | Inr w' \<Rightarrow> Inr (w'\<lparr>ws_tabs := tabsDeleted p (ws_tabs w')\<rparr>))
      else if opn = ''rename'' then
        (let f = trimmed (e_from e); t = trimmed (e_to e) in
         if f = [] \<or> t = [] then Inl MissingFromTo
         else case workspaceRename w f t of
                Inl err \<Rightarrow> Inl IOFailed
              | Inr w' \<Rightarrow> Inr (w'\<lparr>ws_tabs := tabsRenamed f t (ws_tabs w')\<rparr>))
      else if opn = ''run'' then
        (if trim (orEmpty (e_content e)) = [] then Inl MissingCommand else Inr w)
      else Inl (Unsupported (e_op e)))"

text \<open>
  The loop: it stops at the first error, and the operations before it stay applied.
  The result is the error, if any, and the workspace as the loop left it.
\<close>

fun applyLoop :: "Workspace \<Rightarrow> AiEditOp list \<Rightarrow> applyError option \<times> Workspace" where
  "applyLoop w [] = (None, w)"
| "applyLoop w (e # es) =
     (case applyOne w e of
        Inl err \<Rightarrow> (Some err, w)
      | Inr w' \<Rightarrow> applyLoop w' es)"

definition applyAiEditsNow :: "Workspace \<Rightarrow> AiEditOp list \<Rightarrow> applyError option \<times> Workspace" where
  "applyAiEditsNow w edits =
     (if edits = [] then (None, w)
      else if \<not> truthy (ws_root w) then (Some NoWorkspaceOpen, w)
      else applyLoop w edits)"

section \<open>ChangeSet builder\<close>

text \<open>\<^verbatim>\<open>readBefore\<close>: the content of an open tab, else the file, else \<^verbatim>\<open>null\<close>.\<close>

definition readBefore :: "Workspace \<Rightarrow> string \<Rightarrow> string option" where
  "readBefore w p =
     (case find (\<lambda>t. t_path t = p) (ws_tabs w) of
        Some t \<Rightarrow> Some (t_content t)
      | None \<Rightarrow> (case workspaceReadFile w p of Inl err \<Rightarrow> None | Inr c \<Rightarrow> Some c))"

text \<open>The byte sequence of \<^verbatim>\<open>" \<rightarrow> "\<close>: a space, the arrow U+2192 in UTF-8, a space.\<close>

definition arrowSep :: string where
  "arrowSep = [CHR 0x20, CHR 0xE2, CHR 0x86, CHR 0x92, CHR 0x20]"

text \<open>
  The key an operation puts into the set \<^verbatim>\<open>seen\<close>; \<open>None\<close> for an operation the
  loop passes over before it looks at \<^verbatim>\<open>seen\<close>.
\<close>

definition seenKey :: "AiEditOp \<Rightarrow> string option" where
  "seenKey e =
     (let opn = toLowerCase (e_op e) in
      if opn = ''run'' then None
      else if opn = ''write'' then
        (if trimmed (e_path e) = [] then None else Some (''w:'' @ trimmed (e_path e)))
      else if opn = ''patch'' then
        (if trimmed (e_path e) = [] then None else Some (''p:'' @ trimmed (e_path e)))
      else if opn = ''delete'' then
        (if trimmed (e_path e) = [] then None else Some (''d:'' @ trimmed (e_path e)))
      else if opn = ''rename'' then
        (if trimmed (e_from e) = [] \<or> trimmed (e_to e) = [] then None
         else Some (''r:'' @ trimmed (e_from e) @ ''->'' @ trimmed (e_to e)))
      else None)"

datatype buildError = BuildPatchFailed string patchError

text \<open>
  The ChangeFile of an operation that is not passed over and whose key is new; a patch
  that does not apply throws.
\<close>

definition changeFileOf :: "Workspace \<Rightarrow> AiEditOp \<Rightarrow> buildError + ChangeFile" where
  "changeFileOf w e =
     (let opn = toLowerCase (e_op e) in
      if opn = ''write'' then
        Inr \<lparr>cf_kind = KWrite, cf_path = trimmed (e_path e),
             cf_before = readBefore w (trimmed (e_path e)),
             cf_after = Some (orEmpty (e_content e))\<rparr>
      else if opn = ''patch'' then
        (let base = orEmpty (readBefore w (trimmed (e_path e))) in
         case applyUnifiedDiffToText base (orEmpty (e_content e)) of
           Inl err \<Rightarrow> Inl (BuildPatchFailed (trimmed (e_path e)) err)
         | Inr txt \<Rightarrow>
             Inr \<lparr>cf_kind = KWrite, cf_path = trimmed (e_path e), cf_before = Some base,
                  cf_after = Some txt\<rparr>)
      else if opn = ''delete'' then
        Inr \<lparr>cf_kind = KDelete, cf_path = trimmed (e_path e),
             cf_before = readBefore w (trimmed (e_path e)), cf_after = None\<rparr>
      else
        Inr \<lparr>cf_kind = KRename, cf_path = trimmed (e_from e) @ arrowSep @ trimmed (e_to e),
             cf_before = readBefore w (trimmed (e_from e)),
             cf_after = readBefore w (trimmed (e_from e))\<rparr>)"

text \<open>The loop of \<^verbatim>\<open>buildChangeSet\<close> with its set \<^verbatim>\<open>seen\<close> and its list \<^verbatim>\<open>files\<close>.\<close>

fun buildLoop ::
  "Workspace \<Rightarrow> string list \<Rightarrow> ChangeFile list \<Rightarrow> AiEditOp list \<Rightarrow>
   buildError + (string list \<times> ChangeFile list)" where
  "buildLoop w seen files [] = Inr (seen, files)"
| "buildLoop w seen files (e # es) =
     (case seenKey e of
        None \<Rightarrow> buildLoop w seen files es
      | Some k \<Rightarrow>
          if k \<in> set seen then buildLoop w seen files es
          else (case changeFileOf w e of
                  Inl err \<Rightarrow> Inl err
                | Inr f \<Rightarrow> buildLoop w (seen @ [k]) (files @ [f]) es))"

text \<open>The identifier is made from the clock and a random number: it is an input here.\<close>

definition buildChangeSet :: "Workspace \<Rightarrow> string \<Rightarrow> AiEditOp list \<Rightarrow> buildError + ChangeSet" where
  "buildChangeSet w newId edits =
     (case buildLoop w [] [] edits of
        Inl err \<Rightarrow> Inl err
      | Inr (seen, files) \<Rightarrow>
          Inr \<lparr>cs_id = newId, cs_edits = edits, cs_files = files,
               cs_stats = computeStats files, cs_applied = False\<rparr>)"

section \<open>Apply and revert controller\<close>

text \<open>
  The workspace and the change set under review (\<^verbatim>\<open>activeChat.changeSet\<close>). What the
  source does to the view besides is left out: the selected path, the log, the progress
  display and the file shown in the editor (\<^verbatim>\<open>openFile\<close>, also as the \<^verbatim>\<open>previewFile\<close> of
  an apply, opens a tab for a path that has none). Of the state kept here these change
  the list of open tabs only.
\<close>

record Session =
  s_ws :: Workspace
  s_changeSet :: "ChangeSet option"







text \<open>
  The list left when the write file of a path is removed, stored with its statistics,
  or no change set when the list is empty.
\<close>

definition withoutFile :: "ChangeSet \<Rightarrow> string \<Rightarrow> ChangeSet option" where
  "withoutFile cs path =
     (let nextFiles = filter (\<lambda>f. \<not> (cf_kind f = KWrite \<and> cf_path f = path)) (cs_files cs)
      in if nextFiles = [] then None
         else Some (cs\<lparr>cs_files := nextFiles, cs_stats := computeStats nextFiles\<rparr>))"

definition acceptFileChange :: "string \<Rightarrow> Session \<Rightarrow> Session" where
  "acceptFileChange path s =
     (case s_changeSet s of
        None \<Rightarrow> s
      | Some cs \<Rightarrow>
          if \<not> cs_applied cs then
            (if \<not> truthy (ws_root (s_ws s)) then s
             else
               (let fileEdits =
                      filter (\<lambda>e. toLowerCase (e_op e) \<in> set [''write'', ''patch'', ''delete''] \<and>
                                   trim (orEmpty (e_path e)) = path) (cs_edits cs)
                in if fileEdits = [] then s\<lparr>s_changeSet := withoutFile cs path\<rparr>
                   else (case applyAiEditsNow (s_ws s) fileEdits of
                           (None, w') \<Rightarrow>
                             \<lparr>s_ws = w', s_changeSet = Some (cs\<lparr>cs_applied := True\<rparr>)\<rparr>
                         | (Some err, w') \<Rightarrow> \<lparr>s_ws = w', s_changeSet = Some cs\<rparr>)))
          else s\<lparr>s_changeSet := withoutFile cs path\<rparr>)"

definition rejectFileChange :: "string \<Rightarrow> Session \<Rightarrow> Session" where
  "rejectFileChange path s =
     (case s_changeSet s of
        None \<Rightarrow> s
      | Some cs \<Rightarrow>
          (case find (\<lambda>x. cf_kind x = KWrite \<and> cf_path x = path) (cs_files cs) of
             None \<Rightarrow> s
           | Some f \<Rightarrow>
               if \<not> cs_applied cs then s\<lparr>s_changeSet := withoutFile cs path\<rparr>
               else if \<not> truthy (ws_root (s_ws s)) then s
               else
                 (case cf_before f of
                    None \<Rightarrow>
                      (case workspaceDelete (s_ws s) path of
                         Inl err \<Rightarrow> s
                       | Inr w' \<Rightarrow>
                           \<lparr>s_ws = w'\<lparr>ws_tabs := tabsDeleted path (ws_tabs w')\<rparr>,
                            s_changeSet = withoutFile cs path\<rparr>)
                  | Some b \<Rightarrow>
                      (case workspaceWriteFile (s_ws s) path b of
                         Inl err \<Rightarrow> s
                       | Inr w' \<Rightarrow>
                           \<lparr>s_ws = w'\<lparr>ws_tabs := tabsWritten path b (ws_tabs w')\<rparr>,
                            s_changeSet = withoutFile cs path\<rparr>))))"

section \<open>Notions used by the statements about change sets\<close>

text \<open>The stored statistics are the statistics of the stored files.\<close>

definition statsConsistent :: "ChangeSet option \<Rightarrow> bool" where
  "statsConsistent c =
     (case c of None \<Rightarrow> True | Some cs \<Rightarrow> cs_stats cs = computeStats (cs_files cs))"

text \<open>The file list of the change set under review, empty when there is none.\<close>

definition filesUnderReview :: "ChangeSet option \<Rightarrow> ChangeFile list" where
  "filesUnderReview c = (case c of None \<Rightarrow> [] | Some cs \<Rightarrow> cs_files cs)"



section \<open>Notions used by the statement about revert\<close>







section \<open>JSON values\<close>

text \<open>
  The values of \<^verbatim>\<open>JSON.parse\<close>. A number is kept as its text; an object is the list of
  its members in the order of the text, and a member access reads the last member of
  that name. String escapes \<^verbatim>\<open>\uXXXX\<close> are decoded to UTF-8, each escape on its own.
\<close>

datatype json =
    JNull
  | JBool bool
  | JNum string
  | JStr string
  | JArr "json list"
  | JObj "(string \<times> json) list"

datatype token =
  TLBrace | TRBrace | TLBracket | TRBracket | TColon | TComma
  | TStr string | TNum string | TTrue | TFalse | TNull

definition hexVal :: "char \<Rightarrow> nat option" where
  "hexVal c =
     (let n = (of_char c :: nat) in
      if 48 \<le> n \<and> n \<le> 57 then Some (n - 48)
      else if 97 \<le> n \<and> n \<le> 102 then Some (n - 87)
      else if 65 \<le> n \<and> n \<le> 70 then Some (n - 55)
      else None)"

definition utf8 :: "nat \<Rightarrow> string" where
  "utf8 n =
     (if n < 128 then [char_of n]
      else if n < 2048 then [char_of (192 + n div 64), char_of (128 + n mod 64)]
      else [char_of (224 + n div 4096), char_of (128 + (n div 64) mod 64),
            char_of (128 + n mod 64)])"

definition unescape :: "char \<Rightarrow> char option" where
  "unescape e =
     (if e = CHR 0x22 then Some (CHR 0x22)
      else if e = CHR 0x5C then Some (CHR 0x5C)
      else if e = CHR ''/'' then Some (CHR ''/'')
      else if e = CHR ''b'' then Some (CHR 0x08)
      else if e = CHR ''f'' then Some (CHR 0x0C)
      else if e = CHR ''n'' then Some (CHR 0x0A)
      else if e = CHR ''r'' then Some (CHR 0x0D)
      else if e = CHR ''t'' then Some (CHR 0x09)
      else None)"

text \<open>
  The rest of a string literal behind its opening quote: the decoded string and the text
  behind the closing quote.
\<close>

fun lexString :: "string \<Rightarrow> string \<Rightarrow> (string \<times> string) option" where
  "lexString acc [] = None"
| "lexString acc (c # cs) =
     (if c = CHR 0x22 then Some (acc, cs)
      else if c = CHR 0x5C then
        (case cs of
           [] \<Rightarrow> None
         | e # cs' \<Rightarrow>
             if e = CHR ''u'' then
               (case cs' of
                  h1 # h2 # h3 # h4 # cs'' \<Rightarrow>
                    (case (hexVal h1, hexVal h2, hexVal h3, hexVal h4) of
                       (Some a, Some b, Some c', Some d) \<Rightarrow>
                         lexString (acc @ utf8 (((a * 16 + b) * 16 + c') * 16 + d)) cs''
                     | _ \<Rightarrow> None)
                | _ \<Rightarrow> None)
             else (case unescape e of
                     None \<Rightarrow> None
                   | Some ch \<Rightarrow> lexString (acc @ [ch]) cs'))
      else if (of_char c :: nat) < 32 then None
      else lexString (acc @ [c]) cs)"

definition isJsonWs :: "char \<Rightarrow> bool" where
  "isJsonWs c = (c \<in> set [CHR 0x20, CHR 0x09, CHR 0x0A, CHR 0x0D])"

definition isWordChar :: "char \<Rightarrow> bool" where
  "isWordChar c = (isDigit c \<or> isLetter c \<or> c \<in> set ''+-.'')"

text \<open>The grammar of a number: \<^verbatim>\<open>-?(0|[1-9][0-9]*)(\.[0-9]+)?([eE][+-]?[0-9]+)?\<close>.\<close>

definition validExponent :: "string \<Rightarrow> bool" where
  "validExponent r =
     (case r of
        [] \<Rightarrow> True
      | e # r' \<Rightarrow>
          (e = CHR ''e'' \<or> e = CHR ''E'') \<and>
          (let ds = (case r' of [] \<Rightarrow> [] | s # q \<Rightarrow> if s = CHR ''+'' \<or> s = CHR ''-'' then q else r')
           in ds \<noteq> [] \<and> list_all isDigit ds))"

definition validFraction :: "string \<Rightarrow> bool" where
  "validFraction r =
     (case r of
        [] \<Rightarrow> True
      | c # r' \<Rightarrow>
          if c = CHR ''.'' then takeWhile isDigit r' \<noteq> [] \<and> validExponent (dropWhile isDigit r')
          else validExponent r)"

definition validNumber :: "string \<Rightarrow> bool" where
  "validNumber s =
     (case (case s of [] \<Rightarrow> [] | c # r \<Rightarrow> if c = CHR ''-'' then r else s) of
        [] \<Rightarrow> False
      | d # r \<Rightarrow>
          if d = CHR ''0'' then validFraction r
          else isDigit d \<and> validFraction (dropWhile isDigit r))"

definition wordToken :: "string \<Rightarrow> token option" where
  "wordToken w =
     (if w = ''true'' then Some TTrue
      else if w = ''false'' then Some TFalse
      else if w = ''null'' then Some TNull
      else if validNumber w then Some (TNum w)
      else None)"

lemma lexString_shorter: "lexString acc s = Some (r, rest) \<Longrightarrow> length rest < length s"
proof (induction "length s" arbitrary: s acc rule: less_induct)
  case less
  from less.prems obtain c cs where s: "s = c # cs" by (cases s) auto
  show ?case
  proof (cases "c = CHR 0x22")
    case True
    with less.prems s show ?thesis by simp
  next
    case False
    note nq = this
    show ?thesis
    proof (cases "c = CHR 0x5C")
      case False
      with nq less.prems s have "lexString (acc @ [c]) cs = Some (r, rest)"
        by (simp split: if_splits)
      from less.hyps[OF _ this] s show ?thesis by simp
    next
      case True
      with nq less.prems s obtain e cs' where cs: "cs = e # cs'" by (cases cs) auto
      show ?thesis
      proof (cases "e = CHR ''u''")
        case False
        with True nq less.prems s cs obtain ch where
          "lexString (acc @ [ch]) cs' = Some (r, rest)"
          by (auto split: option.splits)
        from less.hyps[OF _ this] s cs show ?thesis by simp
      next
        case u: True
        with True nq less.prems s cs obtain h1 h2 h3 h4 cs'' where
          c4: "cs' = h1 # h2 # h3 # h4 # cs''"
          by (auto split: list.splits)
        with u True nq less.prems s cs obtain n where
          "lexString (acc @ utf8 n) cs'' = Some (r, rest)"
          by (auto split: option.splits)
        from less.hyps[OF _ this] s cs c4 show ?thesis by simp
      qed
    qed
  qed
qed

text \<open>The tokens of a text; \<open>None\<close> for a text that has a character no token starts with.\<close>

function lexJson :: "string \<Rightarrow> token list option" where
  "lexJson [] = Some []"
| "lexJson (c # cs) =
     (if isJsonWs c then lexJson cs
      else if c = CHR ''{'' then map_option ((#) TLBrace) (lexJson cs)
      else if c = CHR ''}'' then map_option ((#) TRBrace) (lexJson cs)
      else if c = CHR ''['' then map_option ((#) TLBracket) (lexJson cs)
      else if c = CHR '']'' then map_option ((#) TRBracket) (lexJson cs)
      else if c = CHR '':'' then map_option ((#) TColon) (lexJson cs)
      else if c = CHR '','' then map_option ((#) TComma) (lexJson cs)
      else if c = CHR 0x22 then
        (case lexString [] cs of
           None \<Rightarrow> None
         | Some (s, rest) \<Rightarrow> map_option ((#) (TStr s)) (lexJson rest))
      else if isWordChar c then
        (case wordToken (c # takeWhile isWordChar cs) of
           None \<Rightarrow> None
         | Some t \<Rightarrow> map_option ((#) t) (lexJson (dropWhile isWordChar cs)))
      else None)"
  by pat_completeness auto
termination
  by (relation "measure length")
    (auto simp: less_Suc_eq_le length_dropWhile_le dest: lexString_shorter less_imp_le)

text \<open>
  The parser over the tokens: a stack of the arrays and objects that are open, and what
  may come next.
\<close>

datatype frame = AFrame "json list" | OFrame "(string \<times> json) list" "string option"

datatype pmode = MValue | MArrFirst | MObjFirst | MKey | MColon | MAfter | MDone json | MError

fun complete :: "frame list \<Rightarrow> json \<Rightarrow> frame list \<times> pmode" where
  "complete [] v = ([], MDone v)"
| "complete (AFrame xs # st) v = (AFrame (xs @ [v]) # st, MAfter)"
| "complete (OFrame kvs (Some k) # st) v = (OFrame (kvs @ [(k, v)]) None # st, MAfter)"
| "complete (OFrame kvs None # st) v = (st, MError)"

fun startValue :: "frame list \<Rightarrow> token \<Rightarrow> frame list \<times> pmode" where
  "startValue st (TStr s) = complete st (JStr s)"
| "startValue st (TNum n) = complete st (JNum n)"
| "startValue st TTrue = complete st (JBool True)"
| "startValue st TFalse = complete st (JBool False)"
| "startValue st TNull = complete st JNull"
| "startValue st TLBracket = (AFrame [] # st, MArrFirst)"
| "startValue st TLBrace = (OFrame [] None # st, MObjFirst)"
| "startValue st t = (st, MError)"

definition pstep :: "frame list \<times> pmode \<Rightarrow> token \<Rightarrow> frame list \<times> pmode" where
  "pstep s t =
     (case s of (st, m) \<Rightarrow>
        (case m of
           MValue \<Rightarrow> startValue st t
         | MArrFirst \<Rightarrow>
             (case (st, t) of
                (AFrame xs # st', TRBracket) \<Rightarrow> complete st' (JArr xs)
              | _ \<Rightarrow> startValue st t)
         | MObjFirst \<Rightarrow>
             (case st of
                OFrame kvs k # st' \<Rightarrow>
                  (case t of
                     TRBrace \<Rightarrow> complete st' (JObj kvs)
                   | TStr name \<Rightarrow> (OFrame kvs (Some name) # st', MColon)
                   | _ \<Rightarrow> (st, MError))
              | _ \<Rightarrow> (st, MError))
         | MKey \<Rightarrow>
             (case st of
                OFrame kvs k # st' \<Rightarrow>
                  (case t of
                     TStr name \<Rightarrow> (OFrame kvs (Some name) # st', MColon)
                   | _ \<Rightarrow> (st, MError))
              | _ \<Rightarrow> (st, MError))
         | MColon \<Rightarrow> (case t of TColon \<Rightarrow> (st, MValue) | _ \<Rightarrow> (st, MError))
         | MAfter \<Rightarrow>
             (case st of
                AFrame xs # st' \<Rightarrow>
                  (case t of
                     TComma \<Rightarrow> (st, MValue)
                   | TRBracket \<Rightarrow> complete st' (JArr xs)
                   | _ \<Rightarrow> (st, MError))
              | OFrame kvs k # st' \<Rightarrow>
                  (case t of
                     TComma \<Rightarrow> (st, MKey)
                   | TRBrace \<Rightarrow> complete st' (JObj kvs)
                   | _ \<Rightarrow> (st, MError))
              | [] \<Rightarrow> (st, MError))
         | MDone v \<Rightarrow> (st, MError)
         | MError \<Rightarrow> (st, MError)))"

text \<open>\<^verbatim>\<open>tryParse\<close>: \<^verbatim>\<open>JSON.parse\<close>, with \<open>None\<close> for the exception.\<close>

definition tryParse :: "string \<Rightarrow> json option" where
  "tryParse s =
     (case lexJson s of
        None \<Rightarrow> None
      | Some toks \<Rightarrow>
          (case foldl pstep ([], MValue) toks of
             (st, MDone v) \<Rightarrow> Some v
           | _ \<Rightarrow> None))"

text \<open>\<^verbatim>\<open>obj.name\<close>: the last member of the name.\<close>

definition member :: "(string \<times> json) list \<Rightarrow> string \<Rightarrow> json option" where
  "member kvs name = map_of (rev kvs) name"

definition asString :: "json option \<Rightarrow> string option" where
  "asString j = (case j of Some (JStr s) \<Rightarrow> Some s | _ \<Rightarrow> None)"

section \<open>Structured-output recoverer\<close>

text \<open>
  The scan for the first balanced \<^verbatim>\<open>{...}\<close> of \<open>t\<close>: \<open>rest\<close> is the text from index \<open>i\<close>
  on. It ends at the first closing brace that brings the depth to zero with a start
  recorded, and parses the text between.
\<close>

fun scanObject ::
  "string \<Rightarrow> string \<Rightarrow> nat \<Rightarrow> int \<Rightarrow> int \<Rightarrow> bool \<Rightarrow> bool \<Rightarrow> json option" where
  "scanObject t [] i depth start inStr esc = None"
| "scanObject t (ch # rest) i depth start inStr esc =
     (if inStr then
        (if esc then scanObject t rest (i + 1) depth start True False
         else if ch = CHR 0x5C then scanObject t rest (i + 1) depth start True True
         else if ch = CHR 0x22 then scanObject t rest (i + 1) depth start False esc
         else scanObject t rest (i + 1) depth start True esc)
      else if ch = CHR 0x22 then scanObject t rest (i + 1) depth start True esc
      else if ch = CHR ''{'' then
        scanObject t rest (i + 1) (depth + 1) (if depth = 0 then int i else start) False esc
      else if ch = CHR ''}'' then
        (if depth - 1 = 0 \<and> 0 \<le> start
         then tryParse (slice t (nat start) (i + 1))
         else scanObject t rest (i + 1) (depth - 1) start False esc)
      else scanObject t rest (i + 1) depth start False esc)"

text \<open>\<^verbatim>\<open>s.indexOf(p)\<close>, \<open>None\<close> for \<open>-1\<close>.\<close>

fun indexOf :: "string \<Rightarrow> string \<Rightarrow> nat option" where
  "indexOf [] p = (if p = [] then Some 0 else None)"
| "indexOf (c # cs) p = (if prefix p (c # cs) then Some 0 else map_option Suc (indexOf cs p))"

text \<open>
  The scan of \<^verbatim>\<open>extractEditsArray\<close> over \<open>s\<close>, the text from the first \<open>[\<close> behind
  \<^verbatim>\<open>"edits"\<close>: it ends at the closing bracket that brings the depth to zero.
\<close>

fun scanArray :: "string \<Rightarrow> string \<Rightarrow> nat \<Rightarrow> int \<Rightarrow> bool \<Rightarrow> bool \<Rightarrow> json list option" where
  "scanArray s [] i depth inStr esc = None"
| "scanArray s (ch # rest) i depth inStr esc =
     (if inStr then
        (if esc then scanArray s rest (i + 1) depth True False
         else if ch = CHR 0x5C then scanArray s rest (i + 1) depth True True
         else if ch = CHR 0x22 then scanArray s rest (i + 1) depth False esc
         else scanArray s rest (i + 1) depth True esc)
      else if ch = CHR 0x22 then scanArray s rest (i + 1) depth True esc
      else if ch = CHR ''['' then scanArray s rest (i + 1) (depth + 1) False esc
      else if ch = CHR '']'' then
        (if depth - 1 = 0
         then (case tryParse (slice s 0 (i + 1)) of Some (JArr xs) \<Rightarrow> Some xs | _ \<Rightarrow> None)
         else scanArray s rest (i + 1) (depth - 1) False esc)
      else scanArray s rest (i + 1) depth False esc)"

definition extractEditsArray :: "string \<Rightarrow> json list option" where
  "extractEditsArray text =
     (case indexOf text (CHR 0x22 # ''edits'' @ [CHR 0x22]) of
        None \<Rightarrow> None
      | Some idx \<Rightarrow>
          (let after = drop idx text in
           case indexOf after ''['' of
             None \<Rightarrow> None
           | Some arrStart \<Rightarrow>
               (let s = drop arrStart after in scanArray s s 0 0 False False)))"

record Recovered =
  r_message :: string
  r_edits :: "json list"
  r_think :: "string option"
  r_plan :: "string list option"
  r_verify :: "string option"
  r_done :: "string option"

text \<open>\<^verbatim>\<open>l.replace(/^([-*]|\d+\.)\s+/, "")\<close>\<close>

definition stripBullet :: "string \<Rightarrow> string" where
  "stripBullet l =
     (case l of
        [] \<Rightarrow> l
      | c # r \<Rightarrow>
          if (c = CHR ''-'' \<or> c = CHR ''*'') \<and> spaceAtStart r \<noteq> 0 then trimStart r
          else if takeWhile isDigit l \<noteq> [] then
            (case dropWhile isDigit l of
               [] \<Rightarrow> l
             | d # r' \<Rightarrow>
                 if d = CHR ''.'' \<and> spaceAtStart r' \<noteq> 0 then trimStart r' else l)
          else l)"

definition planOf :: "json option \<Rightarrow> string list option" where
  "planOf j =
     (case j of
        Some (JArr xs) \<Rightarrow>
          Some (take 16 (filter (\<lambda>s. s \<noteq> [])
                  (map (\<lambda>x. case x of JStr s \<Rightarrow> trim s | _ \<Rightarrow> []) xs)))
      | Some (JStr s) \<Rightarrow>
          Some (take 16 (filter (\<lambda>s. s \<noteq> [])
                  (map (\<lambda>l. trim (stripBullet l)) (splitChar LF s))))
      | _ \<Rightarrow> None)"

text \<open>The result for a parsed object that has an array \<^verbatim>\<open>edits\<close>.\<close>

definition fromObject :: "json option \<Rightarrow> Recovered option" where
  "fromObject parsed =
     (case parsed of
        Some (JObj kvs) \<Rightarrow>
          (case member kvs ''edits'' of
             Some (JArr edits) \<Rightarrow>
               Some \<lparr>r_message =
                       trim (case asString (member kvs ''assistant_message'') of
                               Some m \<Rightarrow> m
                             | None \<Rightarrow>
                                 (case asString (member kvs ''summary'') of
                                    Some m \<Rightarrow> m
                                  | None \<Rightarrow> ''Proposed changes are ready.'')),
                     r_edits = edits,
                     r_think = asString (member kvs ''think''),
                     r_plan = planOf (member kvs ''plan''),
                     r_verify = asString (member kvs ''verify''),
                     r_done = asString (member kvs ''done'')\<rparr>
           | _ \<Rightarrow> None)
      | _ \<Rightarrow> None)"

definition tryParseEditsFromAssistantOutput :: "string \<Rightarrow> Recovered option" where
  "tryParseEditsFromAssistantOutput raw =
     (let t = trim raw in
      if t = [] then None
      else
        (let direct = tryParse t;
             parsed = (if direct = None \<or> direct = Some JNull
                       then scanObject t t 0 0 (- 1) False False else direct)
         in case fromObject parsed of
              Some r \<Rightarrow> Some r
            | None \<Rightarrow>
                (case extractEditsArray t of
                   None \<Rightarrow> None
                 | Some fallbackEdits \<Rightarrow>
                     if fallbackEdits \<noteq> []
                     then Some \<lparr>r_message = ''Proposed changes are ready.'',
                                r_edits = fallbackEdits, r_think = None, r_plan = None,
                                r_verify = None, r_done = None\<rparr>
                     else None)))"

section \<open>White space and numbers\<close>












lemma less_number_simps [simp]:
  "Fin m < Fin n \<longleftrightarrow> m < n" "Fin m < Infinity" "\<not> Infinity < x"
  "Fin m \<le> Fin n \<longleftrightarrow> m \<le> n" "x \<le> Infinity" "\<not> Infinity \<le> Fin n"
  by (auto simp: less_number_def less_eq_number_def split: number.splits)

lemma bitLength_le: "bitLength n \<le> k \<longleftrightarrow> n < 2 ^ k"
proof (induction k arbitrary: n)
  case 0
  show ?case by (subst bitLength.simps) simp
next
  case (Suc k)
  show ?case
  proof (cases "n = 0")
    case True
    then show ?thesis by (subst bitLength.simps) simp
  next
    case False
    have "bitLength n = Suc (bitLength (n div 2))" using False by (subst bitLength.simps) simp
    with Suc[of "n div 2"] show ?thesis by auto
  qed
qed

lemma toDouble_exact: "n < 2 ^ 53 \<Longrightarrow> toDouble n = Fin n"
  by (simp add: toDouble_def bitLength_le)


lemma distance_exact:
  "i < 2 ^ 53 \<Longrightarrow> p < 2 ^ 53 \<Longrightarrow> distance i (Fin p) = Fin (absDiff i p)"
  by (simp add: distance_def absDiff_def toDouble_exact)

section \<open>The anchor search\<close>

lemma findLoop_lower:
  "findLoop hay seq p i best bd = Some r \<Longrightarrow>
   (\<And>b. best = Some b \<Longrightarrow> m \<le> b) \<Longrightarrow> m \<le> i \<Longrightarrow> m \<le> r"
proof (induction hay seq p i best bd rule: findLoop.induct)
  case (1 hay seq p i best bd)
  note unfold = findLoop.simps[of hay seq p i best bd]
  show ?case
  proof (cases "length hay < i + length seq")
    case True
    with "1.prems" unfold show ?thesis by simp
  next
    case False
    note inrange = this
    show ?thesis
    proof (cases "matchesAt hay seq i")
      case False
      with inrange "1.prems" unfold have "findLoop hay seq p (Suc i) best bd = Some r" by simp
      with "1.IH"(1)[OF inrange False] "1.prems" show ?thesis by simp
    next
      case True
      note hit = this
      show ?thesis
      proof (cases "distance i p < bd")
        case False
        with inrange hit "1.prems" unfold have "findLoop hay seq p (Suc i) best bd = Some r"
          by simp
        with "1.IH"(3)[OF inrange _ False] hit "1.prems" show ?thesis by simp
      next
        case True
        note better = this
        show ?thesis
        proof (cases "distance i p = Fin 0")
          case True
          with inrange hit better "1.prems" unfold show ?thesis by simp
        next
          case False
          with inrange hit better "1.prems" unfold
          have "findLoop hay seq p (Suc i) (Some i) (distance i p) = Some r" by simp
          with "1.IH"(2)[OF inrange _ better False] hit "1.prems" show ?thesis by simp
        qed
      qed
    qed
  qed
qed

lemma findSequenceStart_lower:
  "findSequenceStart hay seq minIndex p = Some r \<Longrightarrow> minIndex \<le> r"
proof (cases "seq = []")
  case True
  assume "findSequenceStart hay seq minIndex p = Some r"
  with True show ?thesis by (auto simp: findSequenceStart_def)
next
  case False
  assume "findSequenceStart hay seq minIndex p = Some r"
  with False have "findLoop hay seq p minIndex None Infinity = Some r"
    by (auto simp: findSequenceStart_def split: if_splits)
  then show ?thesis by (rule findLoop_lower) simp_all
qed

lemma applyHunks_no_overlap: "applyHunks a ai out hs \<noteq> Inl Overlap"
proof (induction hs arbitrary: ai out)
  case Nil
  show ?case by simp
next
  case (Cons h hs)
  show ?case
  proof (cases "findSequenceStart a (oldSeqOf h) ai (preferredIdx h)")
    case None
    then show ?thesis by simp
  next
    case (Some f)
    then have "ai \<le> f" by (rule findSequenceStart_lower)
    have lines: "applyHunkLines a i o' ls \<noteq> Inl Overlap" for i o' ls
      by (induction ls arbitrary: i o') (auto split: lineKind.splits)
    show ?thesis
    proof (cases "applyHunkLines a f (out @ slice a ai f) (hunkLines h)")
      case (Inl e)
      with lines[of f "out @ slice a ai f" "hunkLines h"] have "e \<noteq> Overlap" by auto
      with Some \<open>ai \<le> f\<close> Inl show ?thesis by simp
    next
      case (Inr r)
      with Some \<open>ai \<le> f\<close> Cons.IH show ?thesis by (cases r) simp
    qed
  qed
qed

text \<open>
  C10. For every base text and every diff text the patch applier never returns the error
  "Patch hunk overlaps previous hunk": the anchor search only returns indices at or after
  the cursor it is given, so the guard \<^verbatim>\<open>foundIdx < ai\<close> never fires.
\<close>

theorem C10_overlap_unreachable:
  "applyUnifiedDiffToText before patchText \<noteq> Inl Overlap"
proof -
  have "applyHunks (splitLines before) 0 [] (parseUnifiedDiff patchText) \<noteq> Inl Overlap"
    by (rule applyHunks_no_overlap)
  then show ?thesis
    by (auto simp: applyUnifiedDiffToText_def Let_def split: sum.splits)
qed

lemma isRun_Suc: "isRun hay seq i j \<Longrightarrow> \<not> (i + length seq \<le> length hay \<and> matchesAt hay seq i) \<Longrightarrow> isRun hay seq (Suc i) j"
  by (cases "j = i") (auto simp: isRun_def)

lemma isRun_cases: "isRun hay seq i j \<Longrightarrow> j = i \<or> isRun hay seq (Suc i) j"
  by (auto simp: isRun_def)

lemma Fin_0_least: "x = Fin 0 \<or> Fin 0 < x"
  by (cases x) auto

text \<open>
  What the scan returns, given that \<open>best\<close> is a run before \<open>i\<close> at the distance
  \<open>bd\<close>, or \<^verbatim>\<open>null\<close> with \<open>bd\<close> \<^verbatim>\<open>Infinity\<close>: no index only when every run from \<open>i\<close> on is
  at the distance \<^verbatim>\<open>Infinity\<close>; else a run of least distance, the first of them.
\<close>

lemma findLoop_char:
  "findLoop hay seq p i best bd = res \<Longrightarrow> m \<le> i \<Longrightarrow>
   (case best of None \<Rightarrow> bd = Infinity
    | Some b \<Rightarrow> isRun hay seq m b \<and> b < i \<and> bd = distance b p \<and> bd \<noteq> Fin 0 \<and> bd \<noteq> Infinity) \<Longrightarrow>
   (case res of
      None \<Rightarrow> best = None \<and> (\<forall>j. isRun hay seq i j \<longrightarrow> distance j p = Infinity)
    | Some r \<Rightarrow>
        isRun hay seq m r \<and> distance r p \<noteq> Infinity \<and>
        (distance r p < bd \<or> best = Some r) \<and>
        (\<forall>j. isRun hay seq i j \<longrightarrow>
           distance r p < distance j p \<or> (distance r p = distance j p \<and> r \<le> j)))"
proof (induction hay seq p i best bd arbitrary: res rule: findLoop.induct)
  case (1 hay seq p i best bd)
  note unfold = findLoop.simps[of hay seq p i best bd]
  note inv = "1.prems"(3)
  from "1.prems"(2) have mi: "m \<le> Suc i" by simp
  show ?case
  proof (cases "length hay < i + length seq")
    case True
    then have norun: "\<not> isRun hay seq i j" for j by (auto simp: isRun_def)
    from True unfold "1.prems"(1) have "res = best" by simp
    with norun inv show ?thesis by (auto split: option.splits)
  next
    case False
    note inrange = this
    show ?thesis
    proof (cases "matchesAt hay seq i")
      case False
      with inrange unfold "1.prems"(1) have eq: "findLoop hay seq p (Suc i) best bd = res" by simp
      have pre: "case best of None \<Rightarrow> bd = Infinity
        | Some b \<Rightarrow> isRun hay seq m b \<and> b < Suc i \<and> bd = distance b p \<and> bd \<noteq> Fin 0 \<and> bd \<noteq> Infinity"
        using inv by (auto split: option.splits)
      note ih = "1.IH"(1)[OF inrange False eq mi pre]
      have step: "isRun hay seq i j \<Longrightarrow> isRun hay seq (Suc i) j" for j
        using False by (rule_tac isRun_Suc) auto
      show ?thesis using ih step by (auto split: option.splits)
    next
      case True
      note hit = this
      have runi: "isRun hay seq m i" using hit inrange "1.prems"(2) by (auto simp: isRun_def)
      show ?thesis
      proof (cases "distance i p < bd")
        case False
        with inrange hit unfold "1.prems"(1) have eq: "findLoop hay seq p (Suc i) best bd = res"
          by simp
        have pre: "case best of None \<Rightarrow> bd = Infinity
          | Some b \<Rightarrow> isRun hay seq m b \<and> b < Suc i \<and> bd = distance b p \<and> bd \<noteq> Fin 0 \<and> bd \<noteq> Infinity"
          using inv by (auto split: option.splits)
        note ih = "1.IH"(3)[OF inrange _ False eq mi pre]
        from False have nb: "bd \<le> distance i p" by simp
        show ?thesis
        proof (cases res)
          case None
          with ih hit have b: "best = None"
            and r2: "\<And>j. isRun hay seq (Suc i) j \<Longrightarrow> distance j p = Infinity" by auto
          from b inv have "bd = Infinity" by simp
          with nb have "distance i p = Infinity" by (cases "distance i p") auto
          with r2 isRun_cases have "distance j p = Infinity" if "isRun hay seq i j" for j
            using that by blast
          with None b show ?thesis by simp
        next
          case (Some r)
          with ih hit have r1: "isRun hay seq m r" "distance r p \<noteq> Infinity"
              "distance r p < bd \<or> best = Some r"
            and r2: "\<And>j. isRun hay seq (Suc i) j \<Longrightarrow>
                distance r p < distance j p \<or> (distance r p = distance j p \<and> r \<le> j)"
            by auto
          have "distance r p < distance j p \<or> (distance r p = distance j p \<and> r \<le> j)"
            if "isRun hay seq i j" for j
          proof -
            from isRun_cases[OF that] show ?thesis
            proof
              assume j: "j = i"
              from r1(3) show ?thesis
              proof
                assume "distance r p < bd"
                with nb j show ?thesis by auto
              next
                assume "best = Some r"
                with inv have "r < i" "bd = distance r p" by simp_all
                with nb j show ?thesis by auto
              qed
            next
              assume "isRun hay seq (Suc i) j"
              then show ?thesis by (rule r2)
            qed
          qed
          with Some r1 show ?thesis by simp
        qed
      next
        case True
        note better = this
        show ?thesis
        proof (cases "distance i p = Fin 0")
          case True
          with inrange hit better unfold "1.prems"(1) have res: "res = Some i" by simp
          have "distance i p < distance j p \<or> (distance i p = distance j p \<and> i \<le> j)"
            if "isRun hay seq i j" for j
            using that True Fin_0_least[of "distance j p"] by (auto simp: isRun_def)
          with res runi True better show ?thesis by simp
        next
          case False
          with inrange hit better unfold "1.prems"(1)
          have eq: "findLoop hay seq p (Suc i) (Some i) (distance i p) = res" by simp
          from better have ninf: "distance i p \<noteq> Infinity" by auto
          have pre: "case Some i of None \<Rightarrow> distance i p = Infinity
            | Some b \<Rightarrow> isRun hay seq m b \<and> b < Suc i \<and> distance i p = distance b p \<and>
                distance i p \<noteq> Fin 0 \<and> distance i p \<noteq> Infinity"
            using runi False ninf by simp
          note ih = "1.IH"(2)[OF inrange _ better False eq mi pre]
          from ih hit obtain r where res: "res = Some r"
            and r1: "isRun hay seq m r" "distance r p \<noteq> Infinity"
              "distance r p < distance i p \<or> r = i"
            and r2: "\<And>j. isRun hay seq (Suc i) j \<Longrightarrow>
                distance r p < distance j p \<or> (distance r p = distance j p \<and> r \<le> j)"
            by (cases res) auto
          have a: "distance r p < distance j p \<or> (distance r p = distance j p \<and> r \<le> j)"
            if "isRun hay seq i j" for j
          proof -
            from isRun_cases[OF that] show ?thesis
            proof
              assume "j = i"
              with r1 show ?thesis by auto
            next
              assume "isRun hay seq (Suc i) j"
              then show ?thesis by (rule r2)
            qed
          qed
          have b: "distance r p < bd \<or> best = Some r"
            using better r1(3) by auto
          from res r1 a b show ?thesis by simp
        qed
      qed
    qed
  qed
qed

lemma findSequenceStart_char:
  assumes "seq \<noteq> []"
  shows "case findSequenceStart hay seq minIndex p of
      None \<Rightarrow> (\<forall>j. isRun hay seq minIndex j \<longrightarrow> distance j p = Infinity)
    | Some r \<Rightarrow>
        isRun hay seq minIndex r \<and> distance r p \<noteq> Infinity \<and>
        (\<forall>j. isRun hay seq minIndex j \<longrightarrow>
           distance r p < distance j p \<or> (distance r p = distance j p \<and> r \<le> j))"
proof (cases "length hay < minIndex + length seq")
  case True
  then have "\<not> isRun hay seq minIndex j" for j by (auto simp: isRun_def)
  with True assms show ?thesis by (simp add: findSequenceStart_def)
next
  case False
  define res where "res = findLoop hay seq p minIndex None Infinity"
  have "case res of
      None \<Rightarrow> (None :: nat option) = None \<and> (\<forall>j. isRun hay seq minIndex j \<longrightarrow> distance j p = Infinity)
    | Some r \<Rightarrow>
        isRun hay seq minIndex r \<and> distance r p \<noteq> Infinity \<and>
        (distance r p < Infinity \<or> None = Some r) \<and>
        (\<forall>j. isRun hay seq minIndex j \<longrightarrow>
           distance r p < distance j p \<or> (distance r p = distance j p \<and> r \<le> j))"
    by (rule findLoop_char[where best = None]) (simp_all add: res_def)
  moreover from False assms have "findSequenceStart hay seq minIndex p = res"
    by (simp add: findSequenceStart_def res_def)
  ultimately show ?thesis by (auto split: option.splits)
qed

lemma findSequenceStart_Some_run:
  assumes "findSequenceStart hay seq minIndex p = Some r" "seq \<noteq> []"
  shows "isRun hay seq minIndex r"
  using findSequenceStart_char[OF assms(2), of hay minIndex p] assms(1) by simp

lemma findSequenceStart_no_run:
  assumes "\<And>j. \<not> isRun hay seq minIndex j" "minIndex \<le> length hay"
  shows "findSequenceStart hay seq minIndex p = None"
proof (cases "findSequenceStart hay seq minIndex p")
  case None then show ?thesis .
next
  case (Some r)
  show ?thesis
  proof (cases "seq = []")
    case True
    with assms(2) have "isRun hay seq minIndex minIndex" by (simp add: isRun_def matchesAt_def)
    with assms(1) show ?thesis by blast
  next
    case False
    from findSequenceStart_Some_run[OF Some False] assms show ?thesis by blast
  qed
qed

lemma findSequenceStart_matches:
  "findSequenceStart hay seq minIndex p = Some r \<Longrightarrow> matchesAt hay seq r"
  by (cases "seq = []") (auto simp: matchesAt_def isRun_def dest: findSequenceStart_Some_run)

text \<open>
  With a preferred index and a number of lines below \<open>2^53\<close> all distances are exact,
  and the search finds the closest run, the first among equally close ones.
\<close>

lemma findSequenceStart_closest:
  assumes run: "isRun hay seq minIndex j"
    and small: "length hay < 2 ^ 53" "p < 2 ^ 53"
  shows "\<exists>r. findSequenceStart hay seq minIndex (Fin p) = Some r \<and> isRun hay seq minIndex r \<and>
             (absDiff r p < absDiff j p \<or> (absDiff r p = absDiff j p \<and> r \<le> j))"
proof (cases "seq = []")
  case True
  with run have "minIndex \<le> j" "j \<le> length hay" by (auto simp: isRun_def)
  with True show ?thesis
    by (auto simp: findSequenceStart_def minWith_def isRun_def matchesAt_def absDiff_def
        max_def min_def)
next
  case False
  have ex: "distance i (Fin p) = Fin (absDiff i p)" if "isRun hay seq minIndex i" for i
  proof -
    from that have "i \<le> length hay" by (simp add: isRun_def)
    with small show ?thesis by (intro distance_exact) simp_all
  qed
  note c = findSequenceStart_char[OF False, of hay minIndex "Fin p"]
  show ?thesis
  proof (cases "findSequenceStart hay seq minIndex (Fin p)")
    case None
    with c run have "distance j (Fin p) = Infinity" by simp
    with ex[OF run] show ?thesis by simp
  next
    case (Some r)
    with c run have r: "isRun hay seq minIndex r"
      "distance r (Fin p) < distance j (Fin p) \<or> (distance r (Fin p) = distance j (Fin p) \<and> r \<le> j)"
      by simp_all
    with ex[OF run] ex[OF r(1)] Some show ?thesis by simp
  qed
qed


lemma take_drop_Cons:
  "take (Suc n) (drop i a) = x # xs \<Longrightarrow> i < length a \<and> a ! i = x \<and> take n (drop (Suc i) a) = xs"
proof -
  assume h: "take (Suc n) (drop i a) = x # xs"
  then have "drop i a \<noteq> []" by auto
  then have lt: "i < length a" by simp
  then have "drop i a = a ! i # drop (Suc i) a" by (simp add: Cons_nth_drop_Suc)
  with h lt show ?thesis by simp
qed

lemma applyHunkLines_match:
  "take (length (map hl_text (filter (\<lambda>x. hl_kind x = Ctx \<or> hl_kind x = Del) ls))) (drop ai a)
     = map hl_text (filter (\<lambda>x. hl_kind x = Ctx \<or> hl_kind x = Del) ls) \<Longrightarrow>
   applyHunkLines a ai out ls =
     Inr (ai + length (filter (\<lambda>x. hl_kind x = Ctx \<or> hl_kind x = Del) ls), out @ newSeqOf ls)"
proof (induction ls arbitrary: ai out)
  case Nil
  show ?case by (simp add: newSeqOf_def)
next
  case (Cons hl ls)
  show ?case
  proof (cases "hl_kind hl")
    case Add
    with Cons.prems have "take (length (map hl_text (filter (\<lambda>x. hl_kind x = Ctx \<or> hl_kind x = Del) ls))) (drop ai a)
     = map hl_text (filter (\<lambda>x. hl_kind x = Ctx \<or> hl_kind x = Del) ls)" by simp
    from Cons.IH[OF this, of "out @ [hl_text hl]"] Add show ?thesis by (simp add: newSeqOf_def)
  next
    case Ctx
    with Cons.prems have "take (Suc (length (filter (\<lambda>x. hl_kind x = Ctx \<or> hl_kind x = Del) ls))) (drop ai a)
       = hl_text hl # map hl_text (filter (\<lambda>x. hl_kind x = Ctx \<or> hl_kind x = Del) ls)" by simp
    from take_drop_Cons[OF this] have lt: "ai < length a" and eq: "a ! ai = hl_text hl"
      and rest: "take (length (map hl_text (filter (\<lambda>x. hl_kind x = Ctx \<or> hl_kind x = Del) ls))) (drop (Suc ai) a)
       = map hl_text (filter (\<lambda>x. hl_kind x = Ctx \<or> hl_kind x = Del) ls)" by simp_all
    from Cons.IH[OF rest, of "out @ [a ! ai]"] Ctx lt eq show ?thesis by (simp add: newSeqOf_def)
  next
    case Del
    with Cons.prems have "take (Suc (length (filter (\<lambda>x. hl_kind x = Ctx \<or> hl_kind x = Del) ls))) (drop ai a)
       = hl_text hl # map hl_text (filter (\<lambda>x. hl_kind x = Ctx \<or> hl_kind x = Del) ls)" by simp
    from take_drop_Cons[OF this] have lt: "ai < length a" and eq: "a ! ai = hl_text hl"
      and rest: "take (length (map hl_text (filter (\<lambda>x. hl_kind x = Ctx \<or> hl_kind x = Del) ls))) (drop (Suc ai) a)
       = map hl_text (filter (\<lambda>x. hl_kind x = Ctx \<or> hl_kind x = Del) ls)" by simp_all
    from Cons.IH[OF rest, of out] Del lt eq show ?thesis by (simp add: newSeqOf_def)
  qed
qed

lemma applyHunks_step:
  assumes "findSequenceStart a (oldSeqOf h) ai (preferredIdx h) = Some f"
  shows "applyHunks a ai out (h # hs) =
     applyHunks a (f + length (oldSeqOf h)) (out @ slice a ai f @ newSeqOf (hunkLines h)) hs"
proof -
  from assms have "ai \<le> f" by (rule findSequenceStart_lower)
  from findSequenceStart_matches[OF assms]
  have "applyHunkLines a f (out @ slice a ai f) (hunkLines h) =
     Inr (f + length (filter (\<lambda>x. hl_kind x = Ctx \<or> hl_kind x = Del) (hunkLines h)),
          (out @ slice a ai f) @ newSeqOf (hunkLines h))"
    unfolding matchesAt_def oldSeqOf_def by (rule applyHunkLines_match)
  with assms \<open>ai \<le> f\<close> show ?thesis by (simp add: oldSeqOf_def)
qed

lemma applyHunks_errors:
  "applyHunks a ai out hs = Inl e \<Longrightarrow> \<exists>n. e = LocateFailed n"
proof (induction hs arbitrary: ai out)
  case Nil
  then show ?case by simp
next
  case (Cons h hs)
  show ?case
  proof (cases "findSequenceStart a (oldSeqOf h) ai (preferredIdx h)")
    case None
    with Cons.prems show ?thesis by auto
  next
    case (Some f)
    from Cons.prems applyHunks_step[OF Some] Cons.IH show ?thesis by simp
  qed
qed

section \<open>Mismatch detection\<close>

text \<open>
  C5, as stated: a hunk whose context line differs from the base text makes the applier
  return an error that names the expected and the actual line. Here the context line
  \<open>x\<close> is not the first base line \<open>a\<close>, and the error is the locate failure, which carries
  a line number only.
\<close>

theorem C5_counterexample:
  "applyUnifiedDiffToText (joinWith [LF] [''a'', ''b''])
     (joinWith [LF] [''@@ -1 +1 @@'', '' x'', ''+y'']) = Inl (LocateFailed (Fin 1))"
  by code_simp

text \<open>
  C5, amended: a hunk whose context and delete lines do not lie in the base lines as a
  contiguous run at or after the cursor (a cursor within the base lines) makes the
  applier fail with the locate error ("Failed to locate hunk context in file (starting
  near line N)") and no output text. The number \<open>N\<close> is the preferred index plus one, in
  JavaScript numbers; for a declared start \<open>s\<close> below \<open>2^53\<close> it is \<open>s\<close>, and \<open>1\<close> for
  \<open>s = 0\<close>. The applier never returns the context or delete mismatch errors, for any
  base text and diff text.
\<close>

theorem C5_mismatch_is_locate_failure:
  "(ai \<le> length a \<and> (\<forall>j. \<not> isRun a (oldSeqOf h) ai j)
      \<longrightarrow> applyHunks a ai out (h # hs) = Inl (LocateFailed (plusOne (preferredIdx h)))) \<and>
   (oldStart h = Fin s \<and> s < 2 ^ 53 \<longrightarrow> plusOne (preferredIdx h) = Fin (max 1 s)) \<and>
   applyUnifiedDiffToText beforeText patchText \<noteq> Inl (ContextMismatch n expected got) \<and>
   applyUnifiedDiffToText beforeText patchText \<noteq> Inl (DeleteMismatch n expected got)"
proof -
  have A: "applyHunks a ai out (h # hs) = Inl (LocateFailed (plusOne (preferredIdx h)))"
    if "ai \<le> length a" "\<And>j. \<not> isRun a (oldSeqOf h) ai j"
    using findSequenceStart_no_run[of a "oldSeqOf h" ai "preferredIdx h", OF that(2) that(1)]
    by simp
  have N: "plusOne (preferredIdx h) = Fin (max 1 s)" if "oldStart h = Fin s" "s < 2 ^ 53"
  proof (cases s)
    case 0
    with that show ?thesis
      by (simp add: preferredIdx_def minusOne_def plusOne_def toDouble_exact)
  next
    case (Suc k)
    with that have "k < 2 ^ 53" "Suc k < 2 ^ 53" by simp_all
    with that(1) Suc show ?thesis
      by (simp add: preferredIdx_def minusOne_def plusOne_def toDouble_exact)
  qed
  have B: "e = NoHunks \<or> (\<exists>n. e = LocateFailed n)"
    if "applyUnifiedDiffToText beforeText patchText = Inl e" for e
    using that
    by (auto simp: applyUnifiedDiffToText_def Let_def split: if_splits sum.splits
        dest: applyHunks_errors)
  from A N B show ?thesis by blast
qed

text \<open>
  The base lines \<open>a\<close>, \<open>b\<close> and a hunk at line 1 whose context line is \<open>x\<close>.
\<close>

theorem C5_mismatch_is_locate_failure_witness:
  "(0::nat) \<le> length [''a'', ''b''] \<and>
   (\<forall>j. \<not> isRun [''a'', ''b'']
      (oldSeqOf \<lparr>oldStart = Fin 1, oldCount = Fin 1, newStart = Fin 1, newCount = Fin 1,
         hunkLines = [\<lparr>hl_kind = Ctx, hl_text = ''x''\<rparr>, \<lparr>hl_kind = Add, hl_text = ''y''\<rparr>]\<rparr>) 0 j) \<and>
   (1::nat) < 2 ^ 53 \<and>
   applyHunks [''a'', ''b''] 0 []
     [\<lparr>oldStart = Fin 1, oldCount = Fin 1, newStart = Fin 1, newCount = Fin 1,
       hunkLines = [\<lparr>hl_kind = Ctx, hl_text = ''x''\<rparr>, \<lparr>hl_kind = Add, hl_text = ''y''\<rparr>]\<rparr>]
     = Inl (LocateFailed (Fin 1))"
proof -
  let ?h = "\<lparr>oldStart = Fin 1, oldCount = Fin 1, newStart = Fin 1, newCount = Fin 1,
         hunkLines = [\<lparr>hl_kind = Ctx, hl_text = ''x''\<rparr>, \<lparr>hl_kind = Add, hl_text = ''y''\<rparr>]\<rparr>"
  have norun: "\<forall>j. \<not> isRun [''a'', ''b''] (oldSeqOf ?h) 0 j"
  proof
    fix j :: nat
    show "\<not> isRun [''a'', ''b''] (oldSeqOf ?h) 0 j"
      by (cases j) (auto simp: isRun_def matchesAt_def oldSeqOf_def)
  qed
  have small: "(1::nat) < 2 ^ 53" by simp
  from C5_mismatch_is_locate_failure[of 0 "[''a'', ''b'']" ?h "[]" "[]" 1] norun small
  have "applyHunks [''a'', ''b''] 0 [] [?h] = Inl (LocateFailed (plusOne (preferredIdx ?h)))"
    and "plusOne (preferredIdx ?h) = Fin (max 1 1)"
    by simp_all
  with norun small show ?thesis by simp
qed

section \<open>Anchor selection\<close>

text \<open>The hunk header with the declared old start line \<open>2^55\<close>, and what is read from it.\<close>

lemma toDouble_near_2_55:
  "toDouble 36028797018963968 = Fin 36028797018963968"
  "toDouble 36028797018963967 = Fin 36028797018963968"
  "toDouble 36028797018963966 = Fin 36028797018963968"
  by (simp_all add: toDouble_def bitLength.simps Let_def)

lemma parse_2_55:
  "parseUnifiedDiff (joinWith [LF] [''@@ -36028797018963968 +1 @@'', ''-a'']) =
     [\<lparr>oldStart = Fin 36028797018963968, oldCount = Fin 1, newStart = Fin 1, newCount = Fin 1,
       hunkLines = [\<lparr>hl_kind = Del, hl_text = ''a''\<rparr>]\<rparr>]"
proof -
  have sl: "splitLines (joinWith [LF] [''@@ -36028797018963968 +1 @@'', ''-a'']) =
      [''@@ -36028797018963968 +1 @@'', ''-a'']"
    by code_simp
  have mh: "matchHunkHeader ''@@ -36028797018963968 +1 @@'' = Some (''36028797018963968'', ''1'')"
    by code_simp
  have dv: "decimalValue ''36028797018963968'' = 36028797018963968"
    by (simp add: decimalValue_def digitVal_def)
  have "takeWhile isDigit ''36028797018963968'' = ''36028797018963968''" by code_simp
  moreover have "dropWhile isDigit ''36028797018963968'' = []" by code_simp
  ultimately have pr1: "parseRange ''36028797018963968'' = (Fin 36028797018963968, Fin 1)"
    by (simp add: parseRange_def numberOfDigits_def dv toDouble_near_2_55)
  have pr2: "parseRange ''1'' = (Fin 1, Fin 1)" by code_simp
  have "concat (map parseHunkLine (takeWhile (\<lambda>l. \<not> prefix ''@@ '' l) [''-a''])) =
      [\<lparr>hl_kind = Del, hl_text = ''a''\<rparr>]"
    by code_simp
  moreover have "dropWhile (\<lambda>l. \<not> prefix ''@@ '' l) [''-a''] = []" by code_simp
  ultimately show ?thesis
    unfolding parseUnifiedDiff_def sl by (simp add: mh pr1 pr2)
qed

lemma find_2_55:
  "findSequenceStart [''a'', ''x'', ''a''] [''a''] 0
     (preferredIdx \<lparr>oldStart = Fin 36028797018963968, oldCount = Fin 1, newStart = Fin 1,
        newCount = Fin 1, hunkLines = [\<lparr>hl_kind = Del, hl_text = ''a''\<rparr>]\<rparr>) = Some 0"
  by (simp add: preferredIdx_def minusOne_def findSequenceStart_def findLoop.simps
      matchesAt_def distance_def absDiff_def toDouble_near_2_55)

text \<open>
  C6, as stated: the applier selects the run whose start index is closest to
  \<open>oldStart - 1\<close>. The base lines are \<open>a\<close>, \<open>x\<close>, \<open>a\<close> and the hunk deletes the line \<open>a\<close>
  at the declared line \<open>2^55 = 36028797018963968\<close>. The runs start at the indices 0 and
  2, and index 2 is the closer one; but both distances round to the same double, and
  the applier takes the run at index 0: it deletes the first line.
\<close>

theorem C6_counterexample:
  "parseUnifiedDiff (joinWith [LF] [''@@ -36028797018963968 +1 @@'', ''-a'']) =
     [\<lparr>oldStart = Fin 36028797018963968, oldCount = Fin 1, newStart = Fin 1, newCount = Fin 1,
       hunkLines = [\<lparr>hl_kind = Del, hl_text = ''a''\<rparr>]\<rparr>] \<and>
   isRun [''a'', ''x'', ''a''] [''a''] 0 2 \<and>
   findSequenceStart [''a'', ''x'', ''a''] [''a''] 0
     (preferredIdx \<lparr>oldStart = Fin 36028797018963968, oldCount = Fin 1, newStart = Fin 1,
        newCount = Fin 1, hunkLines = [\<lparr>hl_kind = Del, hl_text = ''a''\<rparr>]\<rparr>) = Some 0 \<and>
   applyUnifiedDiffToText (joinWith [LF] [''a'', ''x'', ''a''])
     (joinWith [LF] [''@@ -36028797018963968 +1 @@'', ''-a'']) = Inr (joinWith [LF] [''x'', ''a''])"
proof -
  have run: "isRun [''a'', ''x'', ''a''] [''a''] 0 2" by code_simp
  have base: "splitLines (joinWith [LF] [''a'', ''x'', ''a'']) = [''a'', ''x'', ''a'']"
    by code_simp
  have "applyUnifiedDiffToText (joinWith [LF] [''a'', ''x'', ''a''])
     (joinWith [LF] [''@@ -36028797018963968 +1 @@'', ''-a'']) = Inr (joinWith [LF] [''x'', ''a''])"
    unfolding applyUnifiedDiffToText_def parse_2_55 base
    using find_2_55 by (simp add: oldSeqOf_def slice_def)
  with parse_2_55 find_2_55 run show ?thesis by simp
qed

text \<open>
  C6, amended: for a hunk whose declared old start and a base text whose number of lines
  are below \<open>2^53\<close>: whenever the base lines hold a contiguous run equal to the hunk's
  context and delete lines at or after the cursor, the anchor search of the applier
  returns such a run, its start index is at least as close to \<open>oldStart - 1\<close> as that of
  any other run, and among equally close runs it is the first of the scan. For the base
  lines A, B, C, D, E and a hunk with \<open>oldStart = 1\<close> and old lines B, C the search
  answers index 1.
\<close>

theorem C6_fuzzy_anchor:
  "(isRun a (oldSeqOf h) ai j \<and> oldStart h = Fin s \<and> s < 2 ^ 53 \<and> length a < 2 ^ 53 \<longrightarrow>
     (\<exists>r. findSequenceStart a (oldSeqOf h) ai (preferredIdx h) = Some r \<and>
          isRun a (oldSeqOf h) ai r \<and>
          \<bar>int r - (int s - 1)\<bar> \<le> \<bar>int j - (int s - 1)\<bar> \<and>
          (\<bar>int r - (int s - 1)\<bar> = \<bar>int j - (int s - 1)\<bar> \<longrightarrow> r \<le> j))) \<and>
   findSequenceStart [''A'', ''B'', ''C'', ''D'', ''E''] [''B'', ''C''] 0 (minusOne (Fin 1)) = Some 1"
proof -
  have A: "\<exists>r. findSequenceStart a (oldSeqOf h) ai (preferredIdx h) = Some r \<and>
          isRun a (oldSeqOf h) ai r \<and>
          \<bar>int r - (int s - 1)\<bar> \<le> \<bar>int j - (int s - 1)\<bar> \<and>
          (\<bar>int r - (int s - 1)\<bar> = \<bar>int j - (int s - 1)\<bar> \<longrightarrow> r \<le> j)"
    if run: "isRun a (oldSeqOf h) ai j" and s: "oldStart h = Fin s" "s < 2 ^ 53"
      and len: "length a < 2 ^ 53"
  proof -
    from s have p: "preferredIdx h = Fin (s - 1)" "s - 1 < 2 ^ 53"
      by (simp_all add: preferredIdx_def minusOne_def toDouble_exact)
    from findSequenceStart_closest[OF run len p(2)] p(1) obtain r where
      r: "findSequenceStart a (oldSeqOf h) ai (preferredIdx h) = Some r"
         "isRun a (oldSeqOf h) ai r"
         "absDiff r (s - 1) < absDiff j (s - 1) \<or>
          (absDiff r (s - 1) = absDiff j (s - 1) \<and> r \<le> j)"
      by auto
    from r(3) have "\<bar>int r - (int s - 1)\<bar> \<le> \<bar>int j - (int s - 1)\<bar> \<and>
       (\<bar>int r - (int s - 1)\<bar> = \<bar>int j - (int s - 1)\<bar> \<longrightarrow> r \<le> j)"
      by (auto simp: absDiff_def split: if_splits)
    with r show ?thesis by blast
  qed
  have B: "findSequenceStart [''A'', ''B'', ''C'', ''D'', ''E''] [''B'', ''C''] 0 (minusOne (Fin 1)) = Some 1"
    by (simp add: minusOne_def toDouble_exact findSequenceStart_def findLoop.simps matchesAt_def
        distance_def absDiff_def)
  from A B show ?thesis by blast
qed

text \<open>
  Six base lines with the old lines B, C at the indices 1 and 4: the run at index 1, the
  closer one to \<open>oldStart - 1 = 0\<close>, is the answer.
\<close>

theorem C6_fuzzy_anchor_witness:
  "isRun [''A'', ''B'', ''C'', ''A'', ''B'', ''C'']
     (oldSeqOf \<lparr>oldStart = Fin 1, oldCount = Fin 2, newStart = Fin 1, newCount = Fin 2,
        hunkLines = [\<lparr>hl_kind = Ctx, hl_text = ''B''\<rparr>, \<lparr>hl_kind = Ctx, hl_text = ''C''\<rparr>]\<rparr>) 0 4 \<and>
   (1::nat) < 2 ^ 53 \<and> length [''A'', ''B'', ''C'', ''A'', ''B'', ''C''] < 2 ^ 53 \<and>
   findSequenceStart [''A'', ''B'', ''C'', ''A'', ''B'', ''C'']
     (oldSeqOf \<lparr>oldStart = Fin 1, oldCount = Fin 2, newStart = Fin 1, newCount = Fin 2,
        hunkLines = [\<lparr>hl_kind = Ctx, hl_text = ''B''\<rparr>, \<lparr>hl_kind = Ctx, hl_text = ''C''\<rparr>]\<rparr>) 0
     (preferredIdx \<lparr>oldStart = Fin 1, oldCount = Fin 2, newStart = Fin 1, newCount = Fin 2,
        hunkLines = [\<lparr>hl_kind = Ctx, hl_text = ''B''\<rparr>, \<lparr>hl_kind = Ctx, hl_text = ''C''\<rparr>]\<rparr>)
     = Some 1"
proof -
  let ?a = "[''A'', ''B'', ''C'', ''A'', ''B'', ''C'']"
  let ?h = "\<lparr>oldStart = Fin 1, oldCount = Fin 2, newStart = Fin 1, newCount = Fin 2,
        hunkLines = [\<lparr>hl_kind = Ctx, hl_text = ''B''\<rparr>, \<lparr>hl_kind = Ctx, hl_text = ''C''\<rparr>]\<rparr>"
  have run4: "isRun ?a (oldSeqOf ?h) 0 4"
    by (simp add: isRun_def matchesAt_def oldSeqOf_def)
  have run1: "isRun ?a (oldSeqOf ?h) 0 1"
    by (simp add: isRun_def matchesAt_def oldSeqOf_def)
  have norun0: "\<not> isRun ?a (oldSeqOf ?h) 0 0"
    by (simp add: isRun_def matchesAt_def oldSeqOf_def)
  have small: "(1::nat) < 2 ^ 53" "length ?a < 2 ^ 53" by simp_all
  from run1 small C6_fuzzy_anchor[of ?a ?h 0 1 1] obtain r where
    r: "findSequenceStart ?a (oldSeqOf ?h) 0 (preferredIdx ?h) = Some r"
       "isRun ?a (oldSeqOf ?h) 0 r"
       "\<bar>int r - (int 1 - 1)\<bar> \<le> \<bar>int 1 - (int 1 - 1)\<bar>"
    by auto
  from r(3) have "r \<le> 1" by simp
  with r(2) norun0 have "r = 1" by (cases r) auto
  with r(1) run4 small show ?thesis by simp
qed

section \<open>Round trip of a diff through the applier\<close>

























text \<open>A line with a no-break space behind \<^verbatim>\<open>@@\<close> is a hunk header for the parser.\<close>

lemma matchHunkHeader_no_break_space:
  "matchHunkHeader (''@@'' @ [CHR 0xC2, CHR 0xA0] @ ''-5 +5 @@'') = Some (''5'', ''5'')"
  by code_simp

subsection \<open>The round trip\<close>




section \<open>Path sanitization\<close>

text \<open>
  C3. Every path in the output of the edit normalizer is workspace-relative,
  slash-normalized and free of \<open>..\<close> segments. The code collapses a path that contains
  \<open>..\<close> to its last segment, and that segment can be \<open>..\<close> itself: the write to
  \<open>../..\<close> leaves the normalizer as a write to \<open>..\<close>, the write to \<open>src/..\<close> as well, and
  a path that is just \<open>..\<close> passes unchanged and unreported.
\<close>

theorem C3_traversal_survives:
  "normalizeAiEdits [writeOp ''../..'' ''x''] None = ([writeOp ''..'' ''x''], True) \<and>
   normalizeAiEdits [writeOp ''src/..'' ''x''] (Some ''/abs/root'') = ([writeOp ''..'' ''x''], True) \<and>
   normalizeAiEdits [writeOp ''..'' ''x''] None = ([writeOp ''..'' ''x''], False) \<and>
   hasTraversal ''..''"
  by code_simp

section \<open>Splitting a multi-file diff\<close>






















section \<open>Statistics of a change set\<close>

lemma withoutFile_consistent: "statsConsistent (withoutFile cs path)"
  by (simp add: withoutFile_def statsConsistent_def Let_def)

lemma withoutFile_nonempty: "withoutFile cs path = None \<or> filesUnderReview (withoutFile cs path) \<noteq> []"
  by (simp add: withoutFile_def filesUnderReview_def Let_def)

lemma build_consistent: "buildChangeSet w newId edits = Inr cs \<Longrightarrow> statsConsistent (Some cs)"
  by (auto simp: buildChangeSet_def statsConsistent_def split: sum.splits prod.splits)

lemma accept_shape:
  "s_changeSet (acceptFileChange path s) = s_changeSet s \<or>
   (\<exists>cs. s_changeSet (acceptFileChange path s) = withoutFile cs path) \<or>
   (\<exists>cs. s_changeSet s = Some cs \<and>
      s_changeSet (acceptFileChange path s) = Some (cs\<lparr>cs_applied := True\<rparr>))"
  by (auto simp: acceptFileChange_def Let_def split: option.splits prod.splits)

lemma reject_shape:
  "s_changeSet (rejectFileChange path s) = s_changeSet s \<or>
   (\<exists>cs. s_changeSet (rejectFileChange path s) = withoutFile cs path)"
  by (auto simp: rejectFileChange_def Let_def split: option.splits prod.splits sum.splits)

lemma accept_consistent:
  assumes "statsConsistent (s_changeSet s)"
  shows "statsConsistent (s_changeSet (acceptFileChange path s))"
  using accept_shape[of path s]
proof (elim disjE exE conjE)
  assume "s_changeSet (acceptFileChange path s) = s_changeSet s"
  with assms show ?thesis by simp
next
  fix cs assume "s_changeSet (acceptFileChange path s) = withoutFile cs path"
  with withoutFile_consistent[of cs path] show ?thesis by simp
next
  fix cs assume "s_changeSet s = Some cs"
    "s_changeSet (acceptFileChange path s) = Some (cs\<lparr>cs_applied := True\<rparr>)"
  with assms show ?thesis by (simp add: statsConsistent_def)
qed

lemma reject_consistent:
  assumes "statsConsistent (s_changeSet s)"
  shows "statsConsistent (s_changeSet (rejectFileChange path s))"
  using reject_shape[of path s]
proof (elim disjE exE)
  assume "s_changeSet (rejectFileChange path s) = s_changeSet s"
  with assms show ?thesis by simp
next
  fix cs assume "s_changeSet (rejectFileChange path s) = withoutFile cs path"
  with withoutFile_consistent[of cs path] show ?thesis by simp
qed

lemma accept_retires:
  assumes "filesUnderReview (s_changeSet s) \<noteq> []"
  shows "s_changeSet (acceptFileChange path s) = None \<or>
   filesUnderReview (s_changeSet (acceptFileChange path s)) \<noteq> []"
  using accept_shape[of path s]
proof (elim disjE exE conjE)
  assume "s_changeSet (acceptFileChange path s) = s_changeSet s"
  with assms show ?thesis by simp
next
  fix cs assume "s_changeSet (acceptFileChange path s) = withoutFile cs path"
  with withoutFile_nonempty[of cs path] show ?thesis by simp
next
  fix cs assume "s_changeSet s = Some cs"
    "s_changeSet (acceptFileChange path s) = Some (cs\<lparr>cs_applied := True\<rparr>)"
  with assms show ?thesis by (simp add: filesUnderReview_def)
qed

lemma reject_retires:
  assumes "filesUnderReview (s_changeSet s) \<noteq> []"
  shows "s_changeSet (rejectFileChange path s) = None \<or>
   filesUnderReview (s_changeSet (rejectFileChange path s)) \<noteq> []"
  using reject_shape[of path s]
proof (elim disjE exE)
  assume "s_changeSet (rejectFileChange path s) = s_changeSet s"
  with assms show ?thesis by simp
next
  fix cs assume "s_changeSet (rejectFileChange path s) = withoutFile cs path"
  with withoutFile_nonempty[of cs path] show ?thesis by simp
qed

text \<open>
  C9. The change set that \<^verbatim>\<open>buildChangeSet\<close> returns stores the statistics of its
  files; accepting or rejecting the file of a path keeps it so (the statistics are
  computed again from the files that are left, by \<^verbatim>\<open>computeStats\<close> over \<^verbatim>\<open>diffLines\<close>);
  and a file list that is not empty never becomes an empty stored list: when the last
  file is removed there is no change set any more.
\<close>

theorem C9_stats_consistent:
  "(buildChangeSet w newId edits = Inr cs \<longrightarrow> statsConsistent (Some cs)) \<and>
   (statsConsistent (s_changeSet s) \<longrightarrow>
      statsConsistent (s_changeSet (acceptFileChange path s)) \<and>
      statsConsistent (s_changeSet (rejectFileChange path s))) \<and>
   (filesUnderReview (s_changeSet s) \<noteq> [] \<longrightarrow>
      (s_changeSet (acceptFileChange path s) = None \<or>
       filesUnderReview (s_changeSet (acceptFileChange path s)) \<noteq> []) \<and>
      (s_changeSet (rejectFileChange path s) = None \<or>
       filesUnderReview (s_changeSet (rejectFileChange path s)) \<noteq> []))"
  using build_consistent[of w newId edits cs] accept_consistent[of s path]
    reject_consistent[of s path] accept_retires[of s path] reject_retires[of s path]
  by blast

text \<open>
  A change set of two writes, built in a workspace that holds \<open>a.txt\<close>; the write of
  \<open>a.txt\<close> is rejected, then the write of \<open>b.txt\<close>, which leaves no change set.
\<close>

theorem C9_stats_consistent_witness:
  "buildChangeSet \<lparr>ws_root = Some ''/w'', ws_files = [''a.txt'' \<mapsto> ''x''], ws_tabs = []\<rparr> ''id''
     [writeOp ''a.txt'' ''y'', writeOp ''b.txt'' ''z'']
   = Inr \<lparr>cs_id = ''id'', cs_edits = [writeOp ''a.txt'' ''y'', writeOp ''b.txt'' ''z''],
          cs_files = [\<lparr>cf_kind = KWrite, cf_path = ''a.txt'', cf_before = Some ''x'',
                       cf_after = Some ''y''\<rparr>,
                      \<lparr>cf_kind = KWrite, cf_path = ''b.txt'', cf_before = None,
                       cf_after = Some ''z''\<rparr>],
          cs_stats = \<lparr>st_files = 2, st_added = 2, st_removed = 2\<rparr>, cs_applied = False\<rparr> \<and>
   statsConsistent (Some
       \<lparr>cs_id = ''id'', cs_edits = [writeOp ''a.txt'' ''y'', writeOp ''b.txt'' ''z''],
          cs_files = [\<lparr>cf_kind = KWrite, cf_path = ''a.txt'', cf_before = Some ''x'',
                       cf_after = Some ''y''\<rparr>,
                      \<lparr>cf_kind = KWrite, cf_path = ''b.txt'', cf_before = None,
                       cf_after = Some ''z''\<rparr>],
          cs_stats = \<lparr>st_files = 2, st_added = 2, st_removed = 2\<rparr>, cs_applied = False\<rparr>) \<and>
   statsConsistent (s_changeSet (rejectFileChange ''a.txt''
     \<lparr>s_ws = \<lparr>ws_root = Some ''/w'', ws_files = [''a.txt'' \<mapsto> ''x''], ws_tabs = []\<rparr>,
      s_changeSet = Some
       \<lparr>cs_id = ''id'', cs_edits = [writeOp ''a.txt'' ''y'', writeOp ''b.txt'' ''z''],
          cs_files = [\<lparr>cf_kind = KWrite, cf_path = ''a.txt'', cf_before = Some ''x'',
                       cf_after = Some ''y''\<rparr>,
                      \<lparr>cf_kind = KWrite, cf_path = ''b.txt'', cf_before = None,
                       cf_after = Some ''z''\<rparr>],
          cs_stats = \<lparr>st_files = 2, st_added = 2, st_removed = 2\<rparr>, cs_applied = False\<rparr>\<rparr>)) \<and>
   cs_stats (the (s_changeSet (rejectFileChange ''a.txt''
     \<lparr>s_ws = \<lparr>ws_root = Some ''/w'', ws_files = [''a.txt'' \<mapsto> ''x''], ws_tabs = []\<rparr>,
      s_changeSet = Some
       \<lparr>cs_id = ''id'', cs_edits = [writeOp ''a.txt'' ''y'', writeOp ''b.txt'' ''z''],
          cs_files = [\<lparr>cf_kind = KWrite, cf_path = ''a.txt'', cf_before = Some ''x'',
                       cf_after = Some ''y''\<rparr>,
                      \<lparr>cf_kind = KWrite, cf_path = ''b.txt'', cf_before = None,
                       cf_after = Some ''z''\<rparr>],
          cs_stats = \<lparr>st_files = 2, st_added = 2, st_removed = 2\<rparr>, cs_applied = False\<rparr>\<rparr>)))
     = \<lparr>st_files = 1, st_added = 1, st_removed = 1\<rparr> \<and>
   s_changeSet (rejectFileChange ''b.txt'' (rejectFileChange ''a.txt''
     \<lparr>s_ws = \<lparr>ws_root = Some ''/w'', ws_files = [''a.txt'' \<mapsto> ''x''], ws_tabs = []\<rparr>,
      s_changeSet = Some
       \<lparr>cs_id = ''id'', cs_edits = [writeOp ''a.txt'' ''y'', writeOp ''b.txt'' ''z''],
          cs_files = [\<lparr>cf_kind = KWrite, cf_path = ''a.txt'', cf_before = Some ''x'',
                       cf_after = Some ''y''\<rparr>,
                      \<lparr>cf_kind = KWrite, cf_path = ''b.txt'', cf_before = None,
                       cf_after = Some ''z''\<rparr>],
          cs_stats = \<lparr>st_files = 2, st_added = 2, st_removed = 2\<rparr>, cs_applied = False\<rparr>\<rparr>))
     = None"
proof -
  let ?w = "\<lparr>ws_root = Some ''/w'', ws_files = [''a.txt'' \<mapsto> ''x''], ws_tabs = []\<rparr>"
  let ?es = "[writeOp ''a.txt'' ''y'', writeOp ''b.txt'' ''z'']"
  let ?cs = "\<lparr>cs_id = ''id'', cs_edits = ?es,
          cs_files = [\<lparr>cf_kind = KWrite, cf_path = ''a.txt'', cf_before = Some ''x'',
                       cf_after = Some ''y''\<rparr>,
                      \<lparr>cf_kind = KWrite, cf_path = ''b.txt'', cf_before = None,
                       cf_after = Some ''z''\<rparr>],
          cs_stats = \<lparr>st_files = 2, st_added = 2, st_removed = 2\<rparr>, cs_applied = False\<rparr>"
  let ?s = "\<lparr>s_ws = ?w, s_changeSet = Some ?cs\<rparr>"
  have built: "buildChangeSet ?w ''id'' ?es = Inr ?cs" by code_simp
  from C9_stats_consistent[of ?w "''id''" ?es ?cs ?s "''a.txt''"] built
  have c0: "statsConsistent (Some ?cs)"
    and c1: "statsConsistent (s_changeSet (rejectFileChange ''a.txt'' ?s))"
    by simp_all
  have v1: "cs_stats (the (s_changeSet (rejectFileChange ''a.txt'' ?s)))
      = \<lparr>st_files = 1, st_added = 1, st_removed = 1\<rparr>" by code_simp
  have v2: "s_changeSet (rejectFileChange ''b.txt'' (rejectFileChange ''a.txt'' ?s)) = None"
    by code_simp
  from built c0 c1 v1 v2 show ?thesis by blast
qed

section \<open>Deduplication in the builder\<close>








section \<open>Revert after apply\<close>



























section \<open>Recovery of a truncated answer\<close>

text \<open>
  C7, as stated: from the truncated text
  \<^verbatim>\<open>{"edits": [{"op":"write","path":"x.ts","content":"hi"}\<close> the recoverer still gets the
  one write operation. In this text the array of the edits is not closed either: the
  bracket scan of the fallback never comes back to depth zero, and the result is
  \<^verbatim>\<open>null\<close>.
\<close>

theorem C7_counterexample:
  \<open>tryParseEditsFromAssistantOutput ''{"edits": [{"op":"write","path":"x.ts","content":"hi"}''
     = None\<close>
  by code_simp

text \<open>
  C7, amended: from the truncated text
  \<^verbatim>\<open>{"edits": [{"op":"write","path":"x.ts","content":"hi"}]\<close>, where the array is closed
  and only the closing brace of the object is missing, the recoverer gets exactly the one
  write operation, with the generic message: the text is no JSON, and the array behind
  \<^verbatim>\<open>"edits"\<close> is found by the bracket scan of the fallback.
\<close>

theorem C7_recovery_fallback:
  \<open>tryParse ''{"edits": [{"op":"write","path":"x.ts","content":"hi"}]'' = None \<and>
   extractEditsArray ''{"edits": [{"op":"write","path":"x.ts","content":"hi"}]''
     = Some [JObj [(''op'', JStr ''write''), (''path'', JStr ''x.ts''), (''content'', JStr ''hi'')]] \<and>
   tryParseEditsFromAssistantOutput ''{"edits": [{"op":"write","path":"x.ts","content":"hi"}]''
     = Some \<lparr>r_message = ''Proposed changes are ready.'',
             r_edits = [JObj [(''op'', JStr ''write''), (''path'', JStr ''x.ts''),
                              (''content'', JStr ''hi'')]],
             r_think = None, r_plan = None, r_verify = None, r_done = None\<rparr>\<close>
  by code_simp

end
